theory Spec2Isabelle
  imports Main "HOL-Library.AList"
begin

section \<open>Python values shared by both scripts\<close>

text \<open>
  Exceptions of the two scripts are values: every \<open>raise\<close>, failed \<open>assert\<close>, missing
  dictionary key and out-of-range index of the source is an \<open>Inl\<close> branch of the model.
\<close>

datatype py_error = IndexError | KeyError | ValueError | AssertionError | AttributeError
  | ParseError

text \<open>Python list indexing \<open>xs[i]\<close>: a negative index counts from the end.\<close>

definition py_index :: "'a list \<Rightarrow> int \<Rightarrow> py_error + 'a" where
  "py_index xs i =
     (if 0 \<le> i \<and> i < int (length xs) then Inr (xs ! nat i)
      else if i < 0 \<and> - int (length xs) \<le> i then Inr (xs ! nat (int (length xs) + i))
      else Inl IndexError)"

text \<open>Python slices \<open>xs[0:d]\<close> and \<open>xs[d:]\<close>; a negative bound counts from the end.\<close>

definition py_slice_to :: "'a list \<Rightarrow> int \<Rightarrow> 'a list" where
  "py_slice_to xs d =
     (if d < 0 then take (nat (int (length xs) + d)) xs else take (nat d) xs)"

definition py_slice_from :: "'a list \<Rightarrow> int \<Rightarrow> 'a list" where
  "py_slice_from xs d =
     (if d < 0 then drop (nat (int (length xs) + d)) xs else drop (nat d) xs)"

text \<open>Dictionary subscription \<open>d[k]\<close> raises \<open>KeyError\<close> on a missing key.\<close>

definition py_getitem :: "('k \<rightharpoonup> 'v) \<Rightarrow> 'k \<Rightarrow> py_error + 'v" where
  "py_getitem d k = (if k \<in> dom d then Inr (the (d k)) else Inl KeyError)"

text \<open>The characters \<open>str.split()\<close> and \<open>str.strip()\<close> treat as white space.\<close>

definition is_space :: "char \<Rightarrow> bool" where
  "is_space c = (c \<in> set [CHR '' '', CHR 0x09, CHR 0x0A, CHR 0x0B, CHR 0x0C, CHR 0x0D])"

definition py_strip :: "string \<Rightarrow> string" where
  "py_strip s = rev (dropWhile is_space (rev (dropWhile is_space s)))"

text \<open>\<open>s.split()\<close>: the maximal runs of non-space characters, in order.\<close>

fun split_ws :: "string \<Rightarrow> string \<Rightarrow> string list" where
  "split_ws cur [] = (if cur = [] then [] else [cur])"
| "split_ws cur (c # cs) =
     (if is_space c then (if cur = [] then split_ws [] cs else cur # split_ws [] cs)
      else split_ws (cur @ [c]) cs)"

definition py_split :: "string \<Rightarrow> string list" where
  "py_split s = split_ws [] s"

text \<open>\<open>sep.join(xs)\<close>.\<close>

fun py_join :: "string \<Rightarrow> string list \<Rightarrow> string" where
  "py_join sep [] = []"
| "py_join sep [x] = x"
| "py_join sep (x # y # ys) = x @ sep @ py_join sep (y # ys)"

text \<open>
  Decimal numerals. \<open>show_nat\<close> and \<open>show_int\<close> are what \<open>"%d" % n\<close> prints;
  \<open>py_int\<close> is \<open>int(s)\<close> on a string: surrounding white space is dropped, one sign is
  allowed, and at least one decimal digit must follow; anything else is a \<open>ValueError\<close>.
\<close>

definition digit_char :: "nat \<Rightarrow> char" where
  "digit_char d = char_of (48 + d)"

definition is_digit :: "char \<Rightarrow> bool" where
  "is_digit c = (48 \<le> (of_char c :: nat) \<and> (of_char c :: nat) \<le> 57)"

definition digit_val :: "char \<Rightarrow> nat" where
  "digit_val c = of_char c - 48"

fun show_nat :: "nat \<Rightarrow> string" where
  "show_nat n = (if n < 10 then [digit_char n] else show_nat (n div 10) @ [digit_char (n mod 10)])"

declare show_nat.simps [simp del]

definition show_int :: "int \<Rightarrow> string" where
  "show_int i = (if i < 0 then CHR ''-'' # show_nat (nat (- i)) else show_nat (nat i))"

definition digits_val :: "string \<Rightarrow> nat" where
  "digits_val s = foldl (\<lambda>acc c. 10 * acc + digit_val c) 0 s"

definition parse_digits :: "string \<Rightarrow> nat option" where
  "parse_digits s = (if s \<noteq> [] \<and> list_all is_digit s then Some (digits_val s) else None)"

definition py_int :: "string \<Rightarrow> py_error + int" where
  "py_int s =
     (case py_strip s of
        [] \<Rightarrow> Inl ValueError
      | c # cs \<Rightarrow>
          if c = CHR ''-'' then
            (case parse_digits cs of None \<Rightarrow> Inl ValueError | Some n \<Rightarrow> Inr (- int n))
          else if c = CHR ''+'' then
            (case parse_digits cs of None \<Rightarrow> Inl ValueError | Some n \<Rightarrow> Inr (int n))
          else
            (case parse_digits (c # cs) of None \<Rightarrow> Inl ValueError | Some n \<Rightarrow> Inr (int n)))"

section \<open>convert\_rwthasr.py: examples and samples\<close>

record example =
  properties :: "string \<rightharpoonup> string"
  nobs :: int
  data :: "string list"
  nrows :: int
  ncol :: int

record sample =
  phone :: string
  state :: int
  left_context :: "string list"
  right_context :: "string list"
  initial :: bool
  final :: bool
  weight :: int
  sum1 :: "string list"
  sum2 :: "string list"

text \<open>\<open>Sample.__init__\<close>.\<close>

definition Sample :: "string \<Rightarrow> int \<Rightarrow> string list \<Rightarrow> string list \<Rightarrow> sample" where
  "Sample p st l r =
     \<lparr>phone = p, state = st, left_context = l, right_context = r,
      initial = False, final = False, weight = 0, sum1 = [], sum2 = []\<rparr>"

text \<open>\<open>Sample.setData\<close>: the two rows of the matrix are cut at the column count.\<close>

definition setData :: "sample \<Rightarrow> int \<Rightarrow> int \<Rightarrow> int \<Rightarrow> string list \<Rightarrow> py_error + sample" where
  "setData s nobs' ncol' nrow dat =
     (if nrow \<noteq> 2 then Inl AssertionError
      else let dim = ncol';
               s1 = py_slice_to dat dim;
               s2 = py_slice_from dat dim
           in if int (length s1) \<noteq> dim then Inl AssertionError
              else if int (length s2) \<noteq> dim then Inl AssertionError
              else Inr (s\<lparr>weight := nobs', sum1 := s1, sum2 := s2\<rparr>))"

record samples =
  samples :: "sample list"
  use_word_boundary :: bool

definition Samples :: samples where
  "Samples = \<lparr>samples = [], use_word_boundary = False\<rparr>"

definition Samples_setUseWordBoundary :: "samples \<Rightarrow> bool \<Rightarrow> samples" where
  "Samples_setUseWordBoundary S use_wb = S\<lparr>use_word_boundary := use_wb\<rparr>"

text \<open>
  The boundary branch of \<open>Samples.setExample\<close>: it reads \<open>properties["boundary"]\<close>
  only in word-boundary mode, and the \<open>if\<close>/\<open>elif\<close> chain is kept in the source's order.
\<close>

definition setBoundary :: "bool \<Rightarrow> example \<Rightarrow> sample \<Rightarrow> py_error + sample" where
  "setBoundary use_wb e s =
     (if use_wb then
        (case py_getitem (properties e) ''boundary'' of
           Inl err \<Rightarrow> Inl err
         | Inr b \<Rightarrow>
             if b = ''begin-of-lemma'' then Inr (s\<lparr>initial := True\<rparr>)
             else if b = ''end-of-lemma'' then Inr (s\<lparr>final := True\<rparr>)
             else if b = ''single-phoneme-lemma'' then Inr (s\<lparr>initial := True, final := True\<rparr>)
             else Inr s)
      else Inr s)"

definition newSample :: "example \<Rightarrow> py_error + sample" where
  "newSample e =
     (case py_getitem (properties e) ''central'' of Inl err \<Rightarrow> Inl err | Inr c \<Rightarrow>
     (case py_getitem (properties e) ''hmm-state'' of Inl err \<Rightarrow> Inl err | Inr hs \<Rightarrow>
     (case py_int hs of Inl err \<Rightarrow> Inl err | Inr st \<Rightarrow>
     (case py_getitem (properties e) ''history[0]'' of Inl err \<Rightarrow> Inl err | Inr h \<Rightarrow>
     (case py_getitem (properties e) ''future[0]'' of Inl err \<Rightarrow> Inl err | Inr f \<Rightarrow>
        Inr (Sample c st [h] [f]))))))"

definition setExample :: "samples \<Rightarrow> example \<Rightarrow> py_error + samples" where
  "setExample S e =
     (case newSample e of Inl err \<Rightarrow> Inl err | Inr s0 \<Rightarrow>
     (case setBoundary (use_word_boundary S) e s0 of Inl err \<Rightarrow> Inl err | Inr s1 \<Rightarrow>
     (case setData s1 (nobs e) (ncol e) (nrows e) (data e) of Inl err \<Rightarrow> Inl err | Inr s2 \<Rightarrow>
        Inr (S\<lparr>samples := samples S @ [s2]\<rparr>))))"

text \<open>A concrete example record, used to run the model.\<close>

definition example_single :: example where
  "example_single =
     \<lparr>properties = [''central'' \<mapsto> ''a'', ''hmm-state'' \<mapsto> ''1'', ''history[0]'' \<mapsto> ''b'',
        ''future[0]'' \<mapsto> ''#'', ''boundary'' \<mapsto> ''single-phoneme-lemma''],
      nobs = 3, data = [''1.0'', ''2.0''], nrows = 2, ncol = 1\<rparr>"


subsection \<open>Writing the samples file\<close>

text \<open>
  \<open>Samples.getGlobalProperties\<close>: the three lengths of the first sample, after the loop
  has asserted them on every sample. \<open>self.samples[0]\<close> raises \<open>IndexError\<close> on an empty
  collection.
\<close>

fun check_samples :: "int \<Rightarrow> int \<Rightarrow> int \<Rightarrow> sample list \<Rightarrow> py_error + unit" where
  "check_samples dim nl nr [] = Inr ()"
| "check_samples dim nl nr (s # ss) =
     (if int (length (sum1 s)) \<noteq> dim then Inl AssertionError
      else if int (length (left_context s)) \<noteq> nl then Inl AssertionError
      else if int (length (right_context s)) \<noteq> nr then Inl AssertionError
      else check_samples dim nl nr ss)"

definition getGlobalProperties :: "samples \<Rightarrow> py_error + (int \<times> int \<times> int)" where
  "getGlobalProperties S =
     (case py_index (samples S) 0 of
        Inl err \<Rightarrow> Inl err
      | Inr s0 \<Rightarrow>
          let dim = int (length (sum1 s0));
              nl = int (length (left_context s0));
              nr = int (length (right_context s0))
          in (case check_samples dim nl nr (samples S) of
                Inl err \<Rightarrow> Inl err
              | Inr u \<Rightarrow> Inr (dim, nl, nr)))"

text \<open>
  \<open>Samples.writeSample\<close> formats one line. The weight is printed with \<open>%f\<close>, a
  floating-point conversion; its text is the parameter \<open>fmt_f\<close>.
\<close>

definition writeSample :: "(int \<Rightarrow> string) \<Rightarrow> sample \<Rightarrow> string" where
  "writeSample fmt_f s =
     phone s @ '' '' @ show_int (state s) @ '' '' @
     py_join '' '' (left_context s) @ '' '' @
     py_join '' '' (right_context s) @ '' '' @
     fmt_f (weight s) @ '' '' @
     py_join '' '' (sum1 s) @ '' '' @ py_join '' '' (sum2 s) @ [CHR 0x0A]"

definition samples_header :: "int \<Rightarrow> int \<Rightarrow> int \<Rightarrow> string" where
  "samples_header dim nl nr =
     ''1 '' @ show_int dim @ '' '' @ show_int nl @ '' '' @ show_int nr @ [CHR 0x0A]"

text \<open>
  \<open>Samples.write\<close>. The result is the effect on the file system together with the
  exception, if any: the first component is \<open>None\<close> while the output file has not been
  opened, and the text written to it otherwise.
\<close>

definition Samples_write :: "(int \<Rightarrow> string) \<Rightarrow> samples \<Rightarrow> string option \<times> py_error option" where
  "Samples_write fmt_f S =
     (case getGlobalProperties S of
        Inl err \<Rightarrow> (None, Some err)
      | Inr (dim, num_left_context, num_right_context) \<Rightarrow>
          (Some (samples_header dim num_left_context num_right_context @
                 concat (map (writeSample fmt_f) (samples S))), None))"

definition samples_two :: samples where
  "samples_two =
     \<lparr>samples =
        [\<lparr>phone = ''a'', state = 0, left_context = [''b''], right_context = [''c''],
          initial = False, final = False, weight = 1, sum1 = [''1'', ''2''], sum2 = [''3'', ''4'']\<rparr>,
         \<lparr>phone = ''b'', state = 1, left_context = [''a''], right_context = [''a''],
          initial = False, final = False, weight = 2, sum1 = [''5'', ''6''], sum2 = [''7'', ''8'']\<rparr>],
      use_word_boundary = False\<rparr>"

text \<open>A sample has the three lengths \<open>dim\<close>, \<open>nl\<close>, \<open>nr\<close>.\<close>

definition agrees :: "int \<Rightarrow> int \<Rightarrow> int \<Rightarrow> sample \<Rightarrow> bool" where
  "agrees dim nl nr s =
     (int (length (sum1 s)) = dim \<and> int (length (left_context s)) = nl \<and>
      int (length (right_context s)) = nr)"

definition samples_mismatch :: samples where
  "samples_mismatch =
     \<lparr>samples =
        [\<lparr>phone = ''a'', state = 0, left_context = [''b''], right_context = [''c''],
          initial = False, final = False, weight = 1, sum1 = [''1'', ''2''], sum2 = [''3'', ''4'']\<rparr>,
         \<lparr>phone = ''b'', state = 1, left_context = [''a''], right_context = [''a''],
          initial = False, final = False, weight = 2, sum1 = [''5''], sum2 = [''7'']\<rparr>],
      use_word_boundary = False\<rparr>"

section \<open>convert\_rwthasr.py: the phone symbol table\<close>

text \<open>
  The dictionaries \<open>symbols_\<close> and \<open>keys_\<close> of the source are the fields
  \<open>symbols_tab\<close> and \<open>keys_tab\<close>. \<open>symbols_tab\<close> is iterated by \<open>write\<close> and \<open>symbols\<close>, so it is an association list:
  its order stands for the iteration order of the Python dictionary, which the language
  does not fix. \<open>keys_tab\<close> is only looked up.
\<close>

record SymbolTable =
  symbols_tab :: "(int \<times> string) list"
  keys_tab :: "string \<rightharpoonup> int"

definition SymbolTable :: SymbolTable where
  "SymbolTable = \<lparr>symbols_tab = [], keys_tab = Map.empty\<rparr>"

text \<open>Iterating over a text file yields its lines, each with its line feed.\<close>

fun lines_from :: "string \<Rightarrow> string \<Rightarrow> string list" where
  "lines_from cur [] = (if cur = [] then [] else [cur])"
| "lines_from cur (c # cs) =
     (if c = CHR 0x0A then (cur @ [c]) # lines_from [] cs else lines_from (cur @ [c]) cs)"

definition py_lines :: "string \<Rightarrow> string list" where
  "py_lines s = lines_from [] s"

text \<open>One iteration of the loop of \<open>SymbolTable.read\<close>.\<close>

definition read_line :: "SymbolTable \<Rightarrow> string \<Rightarrow> py_error + SymbolTable" where
  "read_line t line =
     (if py_strip line = [] then Inr t
      else case py_split line of
        [symbol, key] \<Rightarrow>
          (case py_int key of
             Inl err \<Rightarrow> Inl err
           | Inr k \<Rightarrow>
               if k = 0 then Inr t
               else Inr (t\<lparr>symbols_tab := AList.update k symbol (symbols_tab t),
                           keys_tab := (keys_tab t)(symbol \<mapsto> k)\<rparr>))
      | _ \<Rightarrow> Inl ValueError)"

fun read_lines :: "SymbolTable \<Rightarrow> string list \<Rightarrow> py_error + SymbolTable" where
  "read_lines t [] = Inr t"
| "read_lines t (l # ls) =
     (case read_line t l of Inl err \<Rightarrow> Inl err | Inr t' \<Rightarrow> read_lines t' ls)"

text \<open>\<open>SymbolTable.read\<close> on the text of the file, \<open>SymbolTable.write\<close> to a text.\<close>

definition SymbolTable_read :: "SymbolTable \<Rightarrow> string \<Rightarrow> py_error + SymbolTable" where
  "SymbolTable_read t content = read_lines t (py_lines content)"

definition write_entry :: "int \<times> string \<Rightarrow> string" where
  "write_entry kv = snd kv @ '' '' @ show_int (fst kv) @ [CHR 0x0A]"

definition SymbolTable_write :: "SymbolTable \<Rightarrow> string" where
  "SymbolTable_write t = ''.eps 0'' @ [CHR 0x0A] @ concat (map write_entry (symbols_tab t))"

definition SymbolTable_symbols :: "SymbolTable \<Rightarrow> string list" where
  "SymbolTable_symbols t = map snd (symbols_tab t)"

text \<open>A symbol that survives \<open>line.split()\<close> as one token.\<close>

definition is_token :: "string \<Rightarrow> bool" where
  "is_token s = (s \<noteq> [] \<and> list_all (\<lambda>c. \<not> is_space c) s)"

text \<open>
  The table that \<open>read\<close> builds from the lines \<open>a 1\<close>, \<open>a 2\<close>, \<open>b 3\<close>: one symbol is
  stored under two keys.
\<close>

definition table_dup :: SymbolTable where
  "table_dup =
     \<lparr>symbols_tab = [(1, ''a''), (2, ''a''), (3, ''b'')], keys_tab = [''a'' \<mapsto> 2, ''b'' \<mapsto> 3]\<rparr>"

definition table_spaced :: SymbolTable where
  "table_spaced = \<lparr>symbols_tab = [(1, ''a b'')], keys_tab = [''a b'' \<mapsto> 1]\<rparr>"

text \<open>Entries that \<open>write\<close> can put on a line each and \<open>read\<close> stores again.\<close>

definition storable :: "(int \<times> string) list \<Rightarrow> bool" where
  "storable es = list_all (\<lambda>kv. fst kv \<noteq> 0 \<and> is_token (snd kv)) es"

section \<open>convert\_rwthasr.py: symbol conversion and questions\<close>

text \<open>
  A Python \<open>set\<close> that the script iterates over is a list without repetitions; its
  order stands for the iteration order, which the language does not fix.
\<close>

definition set_add :: "'a \<Rightarrow> 'a list \<Rightarrow> 'a list" where
  "set_add x xs = (if x \<in> set xs then xs else xs @ [x])"

definition set_update :: "'a list \<Rightarrow> 'a list \<Rightarrow> 'a list" where
  "set_update xs ys = foldl (\<lambda>acc y. set_add y acc) xs ys"

definition set_union :: "'a list \<Rightarrow> 'a list \<Rightarrow> 'a list" where
  "set_union xs ys = set_update xs ys"

text \<open>The substring test \<open>sub in s\<close>, and \<open>s.split("@")[0]\<close>.\<close>

fun contains :: "string \<Rightarrow> string \<Rightarrow> bool" where
  "contains sub [] = (sub = [])"
| "contains sub (c # cs) = (take (length sub) (c # cs) = sub \<or> contains sub cs)"

definition base_phone :: "string \<Rightarrow> string" where
  "base_phone s = takeWhile (\<lambda>c. c \<noteq> CHR ''@'') s"

record SymbolConverter =
  mapping :: "string \<rightharpoonup> string"
  initial_phones :: "string list"
  final_phones :: "string list"
  phone_classes :: "(string \<times> string list) list"
  conv_use_word_boundary :: bool
  non_wb :: "string list"
  conv_symbols :: "SymbolTable option"

definition SymbolConverter :: SymbolConverter where
  "SymbolConverter =
     \<lparr>mapping = Map.empty, initial_phones = [], final_phones = [], phone_classes = [],
      conv_use_word_boundary = False, non_wb = [], conv_symbols = None\<rparr>"

text \<open>One iteration of the loop of \<open>SymbolConverter.setSymbols\<close>.\<close>

definition setSymbols_step :: "SymbolConverter \<Rightarrow> string \<Rightarrow> SymbolConverter" where
  "setSymbols_step c s =
     (let c1 = (if contains ''@i'' s then c\<lparr>initial_phones := set_add s (initial_phones c)\<rparr> else c);
          c2 = (if contains ''@f'' s then c1\<lparr>final_phones := set_add s (final_phones c1)\<rparr> else c1);
          basePhone = base_phone s
      in if basePhone \<noteq> s then
           c2\<lparr>phone_classes :=
                AList.update basePhone
                  ((case map_of (phone_classes c2) basePhone of None \<Rightarrow> [] | Some l \<Rightarrow> l) @ [s])
                  (phone_classes c2)\<rparr>
         else c2)"

definition setSymbols :: "SymbolConverter \<Rightarrow> SymbolTable \<Rightarrow> SymbolConverter" where
  "setSymbols c tab = foldl setSymbols_step (c\<lparr>conv_symbols := Some tab\<rparr>) (SymbolTable_symbols tab)"

definition SymbolConverter_setUseWordBoundary ::
    "SymbolConverter \<Rightarrow> bool \<Rightarrow> string list \<Rightarrow> SymbolConverter" where
  "SymbolConverter_setUseWordBoundary c use_wb non_wb' =
     c\<lparr>conv_use_word_boundary := use_wb, non_wb := non_wb',
       initial_phones := set_update (initial_phones c) non_wb',
       final_phones := set_update (final_phones c) non_wb'\<rparr>"

text \<open>The texts written by \<open>writeInitialPhones\<close> and \<open>writeFinalPhones\<close>.\<close>

definition writeInitialPhones :: "SymbolConverter \<Rightarrow> string" where
  "writeInitialPhones c = py_join [CHR 0x0A] (initial_phones c) @ [CHR 0x0A]"

definition writeFinalPhones :: "SymbolConverter \<Rightarrow> string" where
  "writeFinalPhones c = py_join [CHR 0x0A] (final_phones c) @ [CHR 0x0A]"

text \<open>
  \<open>Questions.questions\<close> maps a question name to its phones.
  \<open>Questions.setInitialFinal\<close> stores the two sets and fills \<open>is_within\<close> in a loop
  over the phone inventory.
\<close>

record Questions =
  questions :: "(string \<times> string list) list"

definition Questions :: Questions where
  "Questions = \<lparr>questions = []\<rparr>"

definition within_step :: "string list \<Rightarrow> Questions \<Rightarrow> string \<Rightarrow> Questions" where
  "within_step boundary q p =
     (if p \<notin> set boundary then
        q\<lparr>questions :=
            AList.update ''is_within''
              ((case map_of (questions q) ''is_within'' of None \<Rightarrow> [] | Some l \<Rightarrow> l) @ [p])
              (questions q)\<rparr>
      else q)"

definition setInitialFinal ::
    "Questions \<Rightarrow> string list \<Rightarrow> string list \<Rightarrow> string list \<Rightarrow> Questions" where
  "setInitialFinal q initial' final' all =
     (let q1 = q\<lparr>questions := AList.update ''is_initial'' initial' (questions q)\<rparr>;
          q2 = q1\<lparr>questions := AList.update ''is_final'' final' (questions q1)\<rparr>;
          q3 = q2\<lparr>questions := AList.update ''is_within'' [] (questions q2)\<rparr>;
          boundary = set_union initial' final'
      in foldl (within_step boundary) q3 all)"

definition Questions_write :: "Questions \<Rightarrow> string" where
  "Questions_write q =
     concat (map (\<lambda>e. fst e @ '' '' @ py_join '' '' (snd e) @ [CHR 0x0A]) (questions q))"

definition table_abfb :: SymbolTable where
  "table_abfb =
     \<lparr>symbols_tab = [(1, ''a''), (2, ''a@i''), (3, ''a@f''), (4, ''b'')],
      keys_tab = [''a'' \<mapsto> 1, ''a@i'' \<mapsto> 2, ''a@f'' \<mapsto> 3, ''b'' \<mapsto> 4]\<rparr>"

text \<open>The boundary variants of the base phone \<open>b\<close> among the symbols, in order.\<close>

definition variants :: "string \<Rightarrow> string list \<Rightarrow> string list" where
  "variants b syms = filter (\<lambda>s. CHR ''@'' \<in> set s \<and> base_phone s = b) syms"

definition table_si :: SymbolTable where
  "table_si =
     \<lparr>symbols_tab = [(1, ''si''), (2, ''a''), (3, ''a@i'')],
      keys_tab = [''si'' \<mapsto> 1, ''a'' \<mapsto> 2, ''a@i'' \<mapsto> 3]\<rparr>"

definition conv_si :: SymbolConverter where
  "conv_si = SymbolConverter_setUseWordBoundary (setSymbols SymbolConverter table_si) True [''si'']"

definition questions_si :: Questions where
  "questions_si =
     setInitialFinal Questions (initial_phones conv_si) (final_phones conv_si)
       (SymbolTable_symbols table_si)"

section \<open>lookuptable.py: the HMM state models\<close>

text \<open>
  \<open>SymbolTable.find\<close> of lookuptable.py is \<open>dict_.get(symbol, -1)\<close>; the table is the
  dictionary itself.
\<close>

definition SymbolTable_find :: "(string \<rightharpoonup> int) \<Rightarrow> string \<Rightarrow> int" where
  "SymbolTable_find d symbol = (case d symbol of None \<Rightarrow> - 1 | Some k \<Rightarrow> k)"

text \<open>
  \<open>name_re\<close> is \<open>(.*)_([0-9]+)\.[0-9]+\<close>, applied with \<open>match\<close>: anchored at the
  start of the name, not at its end. \<open>name_tail\<close> matches the part after the first
  group at the start of a string and returns the second group: the digits are taken
  greedily and must be followed by a dot and one more digit. \<open>name_re_match\<close> finds the
  longest first group, as the greedy \<open>.*\<close> does; \<open>.\<close> does not match a line feed.
\<close>

definition name_tail :: "string \<Rightarrow> string option" where
  "name_tail s =
     (case s of
        [] \<Rightarrow> None
      | c # r \<Rightarrow>
          if c \<noteq> CHR ''_'' then None
          else let ds = takeWhile is_digit r; rest = dropWhile is_digit r
               in if ds = [] then None
                  else (case rest of
                          d # e # tl' \<Rightarrow> if d = CHR ''.'' \<and> is_digit e then Some ds else None
                        | _ \<Rightarrow> None))"

fun name_re_match :: "string \<Rightarrow> (string \<times> string) option" where
  "name_re_match [] = None"
| "name_re_match (c # cs) =
     (case (if c = CHR 0x0A then None else name_re_match cs) of
        Some (center, st) \<Rightarrow> Some (c # center, st)
      | None \<Rightarrow> (case name_tail (c # cs) of None \<Rightarrow> None | Some ds \<Rightarrow> Some ([], ds)))"

text \<open>
  The fields \<open>center_idx_\<close>, \<open>models_\<close> and \<open>model_syms_\<close> of the source.
  \<open>center_idx\<close> holds one dictionary per HMM state, from a center phone to the indices
  of its model groups. \<open>models\<close> holds the model groups; a group is a dictionary from a
  model index to the pair of context sets, iterated by \<open>find\<close>, hence an association
  list. \<open>model_syms\<close> and \<open>empty_context\<close> are \<open>None\<close> until their setter has run.
\<close>

record HmmStateModels =
  center_idx :: "(string \<rightharpoonup> nat list) list"
  models :: "(int \<times> string set \<times> string set) list list"
  model_syms :: "(string \<rightharpoonup> int) option"
  ci_phones :: "string set"
  empty_context :: "string set option"

definition HmmStateModels :: HmmStateModels where
  "HmmStateModels =
     \<lparr>center_idx = [], models = [], model_syms = None, ci_phones = {}, empty_context = None\<rparr>"

definition setModelSymbols :: "HmmStateModels \<Rightarrow> (string \<rightharpoonup> int) \<Rightarrow> HmmStateModels" where
  "setModelSymbols hm syms = hm\<lparr>model_syms := Some syms\<rparr>"

definition setCiPhones :: "HmmStateModels \<Rightarrow> string list \<Rightarrow> HmmStateModels" where
  "setCiPhones hm ci = hm\<lparr>ci_phones := set ci\<rparr>"

definition setEmptyContext :: "HmmStateModels \<Rightarrow> string list \<Rightarrow> HmmStateModels" where
  "setEmptyContext hm ec = hm\<lparr>empty_context := Some (set ec)\<rparr>"

text \<open>The \<open>while\<close> loop of \<open>_addHmmIndex\<close>: one empty dictionary per missing state.\<close>

function grow :: "(string \<rightharpoonup> nat list) list \<Rightarrow> int \<Rightarrow> (string \<rightharpoonup> nat list) list" where
  "grow cidx st = (if int (length cidx) \<le> st then grow (cidx @ [Map.empty]) st else cidx)"
  by pat_completeness auto
termination
  by (relation "measure (\<lambda>(cidx, st). nat (st + 1 - int (length cidx)))") auto

declare grow.simps [simp del]

text \<open>The position that the Python index \<open>i\<close> denotes in a list of length \<open>n\<close>.\<close>

definition py_pos :: "nat \<Rightarrow> int \<Rightarrow> nat" where
  "py_pos n i = nat (if i < 0 then int n + i else i)"

text \<open>
  The \<open>for\<close> loop of \<open>_addHmmIndex\<close>: \<open>center_idx_[state]\<close> is a Python index, which
  raises \<open>IndexError\<close> out of range and counts a negative state from the end.
\<close>

fun index_centers ::
    "(string \<rightharpoonup> nat list) list \<Rightarrow> int \<Rightarrow> nat \<Rightarrow> string list \<Rightarrow>
     py_error + (string \<rightharpoonup> nat list) list" where
  "index_centers cidx st idx [] = Inr cidx"
| "index_centers cidx st idx (c # cs) =
     (case py_index cidx st of
        Inl err \<Rightarrow> Inl err
      | Inr tbl \<Rightarrow>
          let tbl1 = (if c \<notin> dom tbl then tbl(c \<mapsto> []) else tbl);
              tbl2 = tbl1(c \<mapsto> (case tbl1 c of None \<Rightarrow> [] | Some l \<Rightarrow> l) @ [idx])
          in index_centers (cidx[py_pos (length cidx) st := tbl2]) st idx cs)"

definition addHmmIndex ::
    "HmmStateModels \<Rightarrow> string list \<Rightarrow> int \<Rightarrow> py_error + (HmmStateModels \<times> nat)" where
  "addHmmIndex hm center_phones st =
     (let cidx = grow (center_idx hm) st;
          idx = length (models hm);
          ms = models hm @ [[]]
      in case index_centers cidx st idx center_phones of
           Inl err \<Rightarrow> Inl err
         | Inr cidx' \<Rightarrow> Inr (hm\<lparr>center_idx := cidx', models := ms\<rparr>, idx))"

text \<open>
  The context-independent collapsing of one side in \<open>_addModel\<close>; reading
  \<open>self.empty_context\<close> before \<open>setEmptyContext\<close> raises \<open>AttributeError\<close>.
\<close>

definition collapse :: "HmmStateModels \<Rightarrow> string set \<Rightarrow> py_error + string set" where
  "collapse hm ctx =
     (if ctx \<subseteq> ci_phones hm then
        (case empty_context hm of None \<Rightarrow> Inl AttributeError | Some ec \<Rightarrow> Inr ec)
      else Inr ctx)"

definition addModel :: "HmmStateModels \<Rightarrow> string \<Rightarrow> string list \<Rightarrow> py_error + HmmStateModels" where
  "addModel hm name ctx =
     (case name_re_match name of None \<Rightarrow> Inl AttributeError | Some (center, sts) \<Rightarrow>
     (case py_int sts of Inl err \<Rightarrow> Inl err | Inr n \<Rightarrow>
     (let st = n - 1 in
     (case py_index ctx 1 of Inl err \<Rightarrow> Inl err | Inr c1 \<Rightarrow>
     (let center_phones = py_split c1 in
     (case addHmmIndex hm center_phones st of Inl err \<Rightarrow> Inl err | Inr (hm1, hmm_idx) \<Rightarrow>
     (case model_syms hm1 of None \<Rightarrow> Inl AttributeError | Some syms \<Rightarrow>
     (let model_idx = SymbolTable_find syms name in
      if \<not> model_idx > 0 then Inl AssertionError
      else
     (let model_idx2 = model_idx - 2 in
     (case py_index ctx 0 of Inl err \<Rightarrow> Inl err | Inr c0 \<Rightarrow>
     (case py_index ctx 2 of Inl err \<Rightarrow> Inl err | Inr c2 \<Rightarrow>
     (case collapse hm1 (set (py_split c0)) of Inl err \<Rightarrow> Inl err | Inr left_context' \<Rightarrow>
     (case collapse hm1 (set (py_split c2)) of Inl err \<Rightarrow> Inl err | Inr right_context' \<Rightarrow>
     (let entry = (if set center_phones \<subseteq> ci_phones hm1 then ({}, {})
                   else (left_context', right_context')) in
     (case py_index (models hm1) (int hmm_idx) of Inl err \<Rightarrow> Inl err | Inr grp \<Rightarrow>
        Inr (hm1\<lparr>models := (models hm1)[hmm_idx := AList.update model_idx2 entry grp]\<rparr>)
     )))))))))))))))"

text \<open>
  \<open>parseLogFile\<close> on the lines of the log, each given by its first item and the list
  of pairs that \<open>group_re.findall\<close> extracts from it.
\<close>

definition check_groups :: "(string \<times> string) list \<Rightarrow> py_error + unit" where
  "check_groups ctx =
     (if length ctx \<noteq> 3 then Inl AssertionError
      else (case py_int (fst (ctx ! 0)) of Inl err \<Rightarrow> Inl err | Inr a \<Rightarrow>
           if a \<noteq> - 1 then Inl AssertionError
           else (case py_int (fst (ctx ! 1)) of Inl err \<Rightarrow> Inl err | Inr b \<Rightarrow>
           if b \<noteq> 0 then Inl AssertionError
           else (case py_int (fst (ctx ! 2)) of Inl err \<Rightarrow> Inl err | Inr c \<Rightarrow>
           if c \<noteq> 1 then Inl AssertionError else Inr ()))))"

fun parseLogFile ::
    "HmmStateModels \<Rightarrow> (string \<times> (string \<times> string) list) list \<Rightarrow> py_error + HmmStateModels" where
  "parseLogFile hm [] = Inr hm"
| "parseLogFile hm (l # ls) =
     (case check_groups (snd l) of
        Inl err \<Rightarrow> Inl err
      | Inr u \<Rightarrow>
          (case addModel hm (fst l) (map snd (snd l)) of
             Inl err \<Rightarrow> Inl err
           | Inr hm' \<Rightarrow> parseLogFile hm' ls))"

text \<open>
  \<open>HmmStateModels.find\<close>. The inner loop runs over the models of one group, the outer
  loop over the groups indexed under the center phone; \<open>found\<close> is threaded through
  both, and each \<open>assert found < 0\<close> is a branch.
\<close>

fun find_models ::
    "string \<Rightarrow> string \<Rightarrow> (int \<times> string set \<times> string set) list \<Rightarrow> int \<Rightarrow> py_error + int" where
  "find_models left right [] found = Inr found"
| "find_models left right (e # es) found =
     (if \<not> (left \<noteq> [] \<or> right \<noteq> [] \<or> fst (snd e) \<noteq> {} \<or> snd (snd e) \<noteq> {}) then
        (if found < 0 then find_models left right es (fst e) else Inl AssertionError)
      else if left \<in> fst (snd e) \<and> right \<in> snd (snd e) then
        (if found < 0 then find_models left right es (fst e) else Inl AssertionError)
      else find_models left right es found)"

fun find_groups ::
    "(int \<times> string set \<times> string set) list list \<Rightarrow> string \<Rightarrow> string \<Rightarrow> nat list \<Rightarrow> int \<Rightarrow>
     py_error + int" where
  "find_groups ms left right [] found = Inr found"
| "find_groups ms left right (i # idx) found =
     (case py_index ms (int i) of
        Inl err \<Rightarrow> Inl err
      | Inr grp \<Rightarrow>
          (case find_models left right grp found of
             Inl err \<Rightarrow> Inl err
           | Inr found' \<Rightarrow> find_groups ms left right idx found'))"

definition HmmStateModels_find ::
    "HmmStateModels \<Rightarrow> string \<Rightarrow> string \<Rightarrow> string \<Rightarrow> int \<Rightarrow> py_error + int" where
  "HmmStateModels_find hm left center right st =
     (case py_index (center_idx hm) st of
        Inl err \<Rightarrow> Inl err
      | Inr tbl \<Rightarrow>
          let idx = (case tbl center of None \<Rightarrow> [] | Some l \<Rightarrow> l)
          in find_groups (models hm) left right idx (- 1))"

section \<open>lookuptable.py: allophone states and the main loop\<close>

text \<open>
  \<open>symbol_re\<close> is \<open>(.*){([^+]+)\+([^}]+)}(@i)?(@f)?\.([0-9]+)\<close>, applied with
  \<open>match\<close>. \<open>symbol_tail\<close> matches the part after the first group at the start of a
  string and returns the groups 2 to 6: the left context runs to the first \<open>+\<close>, the
  right context to the first \<open>}\<close>, both non-empty; each marker is taken when it is
  there; a dot and the greedy digits follow. \<open>symbol_re_match\<close> finds the longest first
  group.
\<close>

definition opt_marker :: "string \<Rightarrow> string \<Rightarrow> bool \<times> string" where
  "opt_marker mk s = (if take (length mk) s = mk then (True, drop (length mk) s) else (False, s))"

definition symbol_tail :: "string \<Rightarrow> (string \<times> string \<times> bool \<times> bool \<times> string) option" where
  "symbol_tail s =
     (case s of
        [] \<Rightarrow> None
      | c # r1 \<Rightarrow>
          if c \<noteq> CHR ''{'' then None
          else
          (let left = takeWhile (\<lambda>x. x \<noteq> CHR ''+'') r1 in
           if left = [] then None
           else
           (case dropWhile (\<lambda>x. x \<noteq> CHR ''+'') r1 of
              [] \<Rightarrow> None
            | c2 # r3 \<Rightarrow>
               (let right = takeWhile (\<lambda>x. x \<noteq> CHR ''}'') r3 in
                if right = [] then None
                else
                (case dropWhile (\<lambda>x. x \<noteq> CHR ''}'') r3 of
                   [] \<Rightarrow> None
                 | c4 # r5 \<Rightarrow>
                    (let i = opt_marker ''@i'' r5;
                         f = opt_marker ''@f'' (snd i)
                     in (case snd f of
                           [] \<Rightarrow> None
                         | d # r8 \<Rightarrow>
                             if d \<noteq> CHR ''.'' then None
                             else (let ds = takeWhile is_digit r8
                                   in if ds = [] then None
                                      else Some (left, right, fst i, fst f, ds)))))))))"

fun symbol_re_match ::
    "string \<Rightarrow> (string \<times> string \<times> string \<times> bool \<times> bool \<times> string) option" where
  "symbol_re_match [] = None"
| "symbol_re_match (c # cs) =
     (case (if c = CHR 0x0A then None else symbol_re_match cs) of
        Some (center, groups) \<Rightarrow> Some (c # center, groups)
      | None \<Rightarrow> (case symbol_tail (c # cs) of None \<Rightarrow> None | Some groups \<Rightarrow> Some ([], groups)))"

record AllophoneState =
  a_center :: string
  a_context :: "string list"
  a_state :: int
  a_initial :: bool
  a_final :: bool

text \<open>
  \<open>AllophoneState.__init__\<close> with \<open>_parseSymbol\<close>; the class attribute
  \<open>empty_context\<close> is the first argument.
\<close>

definition AllophoneState :: "string \<Rightarrow> string \<Rightarrow> py_error + AllophoneState" where
  "AllophoneState empty_ctx symbol =
     (case symbol_re_match symbol of
        None \<Rightarrow> Inl ParseError
      | Some (center, left, right, i, f, ds) \<Rightarrow>
          (case py_int ds of
             Inl err \<Rightarrow> Inl err
           | Inr n \<Rightarrow>
               Inr \<lparr>a_center = center,
                    a_context = [if left = ''#'' then empty_ctx else left,
                                 if right = ''#'' then empty_ctx else right],
                    a_state = n, a_initial = i, a_final = f\<rparr>))"

definition phoneSymbol :: "AllophoneState \<Rightarrow> string" where
  "phoneSymbol a =
     a_center a @ (if a_initial a then ''@i'' else []) @ (if a_final a then ''@f'' else [])"

text \<open>
  The body of the loop of \<open>main\<close>. The state is the text written so far to standard
  output and to standard error. \<open>report\<close> is the last \<open>if\<close> of the body.
\<close>

record streams =
  stdout :: string
  stderr :: string

definition report :: "string \<Rightarrow> int \<Rightarrow> streams \<Rightarrow> streams" where
  "report line m out =
     (if m < 0 then out\<lparr>stderr := stderr out @ ''[ERROR] cannot map '' @ line @ [CHR 0x0A]\<rparr>
      else out\<lparr>stdout := stdout out @ line @ '' '' @ show_int m @ [CHR 0x0A]\<rparr>)"

definition warn :: "string \<Rightarrow> streams \<Rightarrow> streams" where
  "warn line out = out\<lparr>stderr := stderr out @ ''[WARNING] not found: '' @ line @ [CHR 0x0A]\<rparr>"

text \<open>The query of the first lookup: \<open>l, c, r\<close> of the source.\<close>

definition query :: "string list \<Rightarrow> AllophoneState \<Rightarrow> string \<times> string \<times> string" where
  "query ci a =
     (if a_center a \<in> set ci then ([], a_center a, [])
      else (a_context a ! 0, phoneSymbol a, a_context a ! 1))"

definition lookup ::
    "HmmStateModels \<Rightarrow> string list \<Rightarrow> string \<Rightarrow> AllophoneState \<Rightarrow> streams \<Rightarrow> py_error + streams" where
  "lookup hm ci line a out =
     (let l = fst (query ci a); c = fst (snd (query ci a)); r = snd (snd (query ci a)) in
      (case HmmStateModels_find hm l c r (a_state a) of
         Inl err \<Rightarrow> Inl err
       | Inr m \<Rightarrow>
           if m < 0 then
             (if a_initial a \<or> a_final a then
                (case HmmStateModels_find hm l (a_center a) r (a_state a) of
                   Inl err \<Rightarrow> Inl err
                 | Inr m2 \<Rightarrow> Inr (report line m2 (warn line out)))
              else Inr (report line m (warn line out)))
           else Inr (report line m out)))"

definition process_line ::
    "HmmStateModels \<Rightarrow> string list \<Rightarrow> string \<Rightarrow> streams \<Rightarrow> string \<Rightarrow> py_error + streams" where
  "process_line hm ci empty_ctx out raw =
     (let line = py_strip raw in
      if line = [] \<or> hd line = CHR ''#'' then Inr out
      else (case AllophoneState empty_ctx line of
              Inl err \<Rightarrow> Inl err
            | Inr a \<Rightarrow> lookup hm ci line a out))"

text \<open>The loop: an exception ends the run and leaves what has been written.\<close>

fun main_loop ::
    "HmmStateModels \<Rightarrow> string list \<Rightarrow> string \<Rightarrow> streams \<Rightarrow> string list \<Rightarrow> streams \<times> py_error option" where
  "main_loop hm ci empty_ctx out [] = (out, None)"
| "main_loop hm ci empty_ctx out (raw # raws) =
     (case process_line hm ci empty_ctx out raw of
        Inl err \<Rightarrow> (out, Some err)
      | Inr out' \<Rightarrow> main_loop hm ci empty_ctx out' raws)"

text \<open>
  The configuration of \<open>main\<close>: a new \<open>HmmStateModels\<close> with the symbol table, the
  context-independent phones and the one-element empty-context set.
\<close>

definition configured :: "(string \<rightharpoonup> int) \<Rightarrow> string list \<Rightarrow> string \<Rightarrow> HmmStateModels" where
  "configured syms ci empty_ctx =
     setEmptyContext (setCiPhones (setModelSymbols HmmStateModels syms) ci) [empty_ctx]"

section \<open>Notions used to state the properties of the lookup table\<close>

text \<open>The pair of context sets that \<open>_addModel\<close> stores, by the collapsing rules.\<close>

definition stored_entry ::
    "HmmStateModels \<Rightarrow> string set \<Rightarrow> string set \<Rightarrow> string set \<Rightarrow> string set \<Rightarrow>
     string set \<times> string set" where
  "stored_entry hm ec centers left right =
     (if centers \<subseteq> ci_phones hm then ({}, {})
      else (if left \<subseteq> ci_phones hm then ec else left,
            if right \<subseteq> ci_phones hm then ec else right))"

text \<open>
  What the loop of \<open>_addHmmIndex\<close> does to the one dictionary it changes: the group
  index is appended under every center phone, once for each time the phone is listed.
\<close>

definition index_tbl :: "(string \<rightharpoonup> nat list) \<Rightarrow> nat \<Rightarrow> string list \<Rightarrow> (string \<rightharpoonup> nat list)" where
  "index_tbl tbl idx cs =
     (\<lambda>c. if c \<in> set cs
          then Some ((case tbl c of None \<Rightarrow> [] | Some l \<Rightarrow> l) @ replicate (count_list cs c) idx)
          else tbl c)"



text \<open>Every group index stored in \<open>center_idx\<close> denotes a group of \<open>models\<close>.\<close>

definition indexed :: "HmmStateModels \<Rightarrow> bool" where
  "indexed hm =
     (\<forall>tbl \<in> set (center_idx hm). \<forall>c l. tbl c = Some l \<longrightarrow> (\<forall>i \<in> set l. i < length (models hm)))"

text \<open>The 0-based state that \<open>_addModel\<close> computes from a state name.\<close>

definition state_of :: "string \<Rightarrow> int" where
  "state_of name =
     (case name_re_match name of
        None \<Rightarrow> - 1
      | Some (center, sts) \<Rightarrow> (case py_int sts of Inl err \<Rightarrow> - 1 | Inr n \<Rightarrow> n - 1))"

text \<open>The model of the end-to-end scenario: the log line \<open>a_1.0 -1={si} 0={a} 1={si}\<close>.\<close>

definition log_a :: "(string \<times> (string \<times> string) list) list" where
  "log_a = [(''a_1.0'', [(''-1'', ''si''), (''0'', ''a''), (''1'', ''si'')])]"

definition syms_a :: "string \<rightharpoonup> int" where
  "syms_a = [''a_1.0'' \<mapsto> 2, ''si_1.0'' \<mapsto> 3, ''a_0.0'' \<mapsto> 4]"

definition cfg_a :: HmmStateModels where
  "cfg_a = configured syms_a [''si''] ''si''"

definition hm_a :: HmmStateModels where
  "hm_a =
     \<lparr>center_idx = [[''a'' \<mapsto> [0]]], models = [[(0, {''si''}, {''si''})]],
      model_syms = Some syms_a, ci_phones = {''si''}, empty_context = Some {''si''}\<rparr>"

text \<open>The model after the log line \<open>si_1.0 -1={a} 0={si} 1={b}\<close> alone.\<close>

definition hm_si :: HmmStateModels where
  "hm_si =
     \<lparr>center_idx = [[''si'' \<mapsto> [0]]], models = [[(1, {}, {})]],
      model_syms = Some syms_a, ci_phones = {''si''}, empty_context = Some {''si''}\<rparr>"

text \<open>
  The model after the log lines \<open>a_1.0 -1={si} 0={a} 1={si}\<close> and
  \<open>a_0.0 -1={b} 0={a} 1={c}\<close>, in this order.
\<close>

definition hm_a0 :: HmmStateModels where
  "hm_a0 =
     \<lparr>center_idx = [[''a'' \<mapsto> [0, 1]]],
      models = [[(0, {''si''}, {''si''})], [(2, {''b''}, {''c''})]],
      model_syms = Some syms_a, ci_phones = {''si''}, empty_context = Some {''si''}\<rparr>"

text \<open>Every group index in a dictionary of \<open>center_idx\<close> is at most \<open>idx\<close>.\<close>

definition bounded_tbl :: "nat \<Rightarrow> (string \<rightharpoonup> nat list) \<Rightarrow> bool" where
  "bounded_tbl idx tbl = (\<forall>c l. tbl c = Some l \<longrightarrow> (\<forall>i \<in> set l. i \<le> idx))"

text \<open>
  The number of state slots that parsing a log creates: the largest 0-based state of a
  line plus one, and none for an empty log.
\<close>

definition slots :: "(string \<times> (string \<times> string) list) list \<Rightarrow> nat" where
  "slots ls = foldl (\<lambda>k l. max k (nat (state_of (fst l) + 1))) 0 ls"







text \<open>The descriptor \<open>a{si+si}.5\<close>, parsed.\<close>

definition a5 :: AllophoneState where
  "a5 = \<lparr>a_center = ''a'', a_context = [''si'', ''si''], a_state = 5,
          a_initial = False, a_final = False\<rparr>"

text \<open>The descriptors \<open>a{si+si}.0\<close>, \<open>a{si+si}@i.0\<close>, \<open>a{b+si}@i.0\<close> and \<open>a{b+si}.0\<close>, parsed.\<close>

definition a_plain :: AllophoneState where
  "a_plain = \<lparr>a_center = ''a'', a_context = [''si'', ''si''], a_state = 0,
               a_initial = False, a_final = False\<rparr>"

definition a_init :: AllophoneState where
  "a_init = \<lparr>a_center = ''a'', a_context = [''si'', ''si''], a_state = 0,
              a_initial = True, a_final = False\<rparr>"

definition a_miss_init :: AllophoneState where
  "a_miss_init = \<lparr>a_center = ''a'', a_context = [''b'', ''si''], a_state = 0,
                   a_initial = True, a_final = False\<rparr>"

definition a_miss :: AllophoneState where
  "a_miss = \<lparr>a_center = ''a'', a_context = [''b'', ''si''], a_state = 0,
              a_initial = False, a_final = False\<rparr>"

definition no_output :: streams where
  "no_output = \<lparr>stdout = [], stderr = []\<rparr>"

section \<open>Properties of sample construction\<close>

lemma setBoundary_flags:
  "setBoundary use_wb e s = Inr s' \<Longrightarrow> initial s = False \<Longrightarrow> final s = False \<Longrightarrow>
   initial s' = (use_wb \<and>
      properties e ''boundary'' \<in> {Some ''begin-of-lemma'', Some ''single-phoneme-lemma''})
 \<and> final s' = (use_wb \<and>
      properties e ''boundary'' \<in> {Some ''end-of-lemma'', Some ''single-phoneme-lemma''})"
  by (auto simp: setBoundary_def py_getitem_def dom_def split: if_splits)

lemma newSample_flags: "newSample e = Inr s \<Longrightarrow> initial s = False \<and> final s = False"
  by (auto simp: newSample_def Sample_def split: sum.splits)

lemma setData_flags:
  "setData s a b c d = Inr s' \<Longrightarrow> initial s' = initial s \<and> final s' = final s"
  by (auto simp: setData_def Let_def split: if_splits)

lemma py_int_digit1: "py_int ''1'' = Inr 1"
  by (simp add: py_int_def py_strip_def is_space_def parse_digits_def is_digit_def
      digits_val_def digit_val_def)

text \<open>
  Claim C6. Whenever \<open>Samples.setExample\<close> returns, it has appended exactly one sample,
  and that sample's flags are read off the example's \<open>boundary\<close> property: in
  word-boundary mode \<open>initial\<close> is set exactly for \<open>begin-of-lemma\<close> and
  \<open>single-phoneme-lemma\<close>, \<open>final\<close> exactly for \<open>end-of-lemma\<close> and
  \<open>single-phoneme-lemma\<close>, so any other value leaves both false; outside word-boundary
  mode both flags are false.
\<close>

theorem setExample_boundary_flags:
  assumes "setExample S e = Inr S'"
  shows "\<exists>s. samples S' = samples S @ [s]
     \<and> initial s = (use_word_boundary S \<and>
          properties e ''boundary'' \<in> {Some ''begin-of-lemma'', Some ''single-phoneme-lemma''})
     \<and> final s = (use_word_boundary S \<and>
          properties e ''boundary'' \<in> {Some ''end-of-lemma'', Some ''single-phoneme-lemma''})"
proof -
  from assms obtain s0 s1 s2 where
    n: "newSample e = Inr s0" and
    b: "setBoundary (use_word_boundary S) e s0 = Inr s1" and
    d: "setData s1 (nobs e) (ncol e) (nrows e) (data e) = Inr s2" and
    r: "S' = S\<lparr>samples := samples S @ [s2]\<rparr>"
    by (auto simp: setExample_def split: sum.splits)
  from newSample_flags [OF n] setBoundary_flags [OF b] setData_flags [OF d] r
  show ?thesis by simp
qed

theorem setExample_boundary_flags_witness:
  "setExample (Samples_setUseWordBoundary Samples True) example_single =
     Inr \<lparr>samples = [\<lparr>phone = ''a'', state = 1, left_context = [''b''],
            right_context = [''#''], initial = True, final = True,
            weight = 3, sum1 = [''1.0''], sum2 = [''2.0'']\<rparr>],
          use_word_boundary = True\<rparr>
   \<and> (\<exists>s. [\<lparr>phone = ''a'', state = 1, left_context = [''b''],
            right_context = [''#''], initial = True, final = True,
            weight = 3, sum1 = [''1.0''], sum2 = [''2.0'']\<rparr>] = [s]
        \<and> initial s \<and> final s)"
proof -
  have h: "setExample (Samples_setUseWordBoundary Samples True) example_single =
     Inr \<lparr>samples = [\<lparr>phone = ''a'', state = 1, left_context = [''b''],
            right_context = [''#''], initial = True, final = True,
            weight = 3, sum1 = [''1.0''], sum2 = [''2.0'']\<rparr>],
          use_word_boundary = True\<rparr>"
    by (simp add: setExample_def newSample_def setBoundary_def setData_def Sample_def
        Samples_def Samples_setUseWordBoundary_def example_single_def py_getitem_def py_int_digit1
        py_slice_to_def py_slice_from_def)
  from setExample_boundary_flags [OF h] h show ?thesis
    by (simp add: Samples_setUseWordBoundary_def Samples_def example_single_def)
qed

section \<open>Properties of the samples file\<close>

lemma check_samples_ok:
  "check_samples dim nl nr ss = Inr () \<longleftrightarrow> list_all (agrees dim nl nr) ss"
  by (induction ss) (auto simp: agrees_def)

lemma check_samples_err:
  "check_samples dim nl nr ss = Inl e \<Longrightarrow> e = AssertionError"
  by (induction ss) (auto split: if_splits)

lemma check_samples_cases:
  "check_samples dim nl nr ss =
     (if list_all (agrees dim nl nr) ss then Inr () else Inl AssertionError)"
proof (cases "check_samples dim nl nr ss")
  case (Inl e)
  with check_samples_err [OF Inl] check_samples_ok [of dim nl nr ss] show ?thesis by auto
next
  case (Inr u)
  with check_samples_ok [of dim nl nr ss] show ?thesis by auto
qed

lemma Samples_write_empty: "samples S = [] \<Longrightarrow> Samples_write fmt_f S = (None, Some IndexError)"
  by (simp add: Samples_write_def getGlobalProperties_def py_index_def)

lemma show_nat_small: "n < 10 \<Longrightarrow> show_nat n = [digit_char n]"
  by (subst show_nat.simps) simp

text \<open>
  Claim C4. For a non-empty collection whose first sample has sum-vector length \<open>dim\<close>
  and context list lengths \<open>nl\<close> and \<open>nr\<close>: if every sample has these three lengths,
  \<open>Samples.write\<close> raises nothing and the file holds the header line
  \<open>1 dim nl nr\<close> followed by the line of every sample; if some sample differs in one of
  the three lengths, \<open>AssertionError\<close> is raised while the output file is still
  unopened, so nothing is written.
\<close>

theorem Samples_write_header:
  assumes "samples S = s0 # rest"
    and "dim = int (length (sum1 s0))"
    and "nl = int (length (left_context s0))"
    and "nr = int (length (right_context s0))"
  shows "(list_all (agrees dim nl nr) (samples S) \<longrightarrow>
            Samples_write fmt_f S =
              (Some ((''1 '' @ show_int dim @ '' '' @ show_int nl @ '' '' @ show_int nr @ [CHR 0x0A])
                     @ concat (map (writeSample fmt_f) (samples S))), None))
       \<and> (\<not> list_all (agrees dim nl nr) (samples S) \<longrightarrow>
            Samples_write fmt_f S = (None, Some AssertionError))"
  using assms
  by (simp add: Samples_write_def getGlobalProperties_def py_index_def check_samples_cases
      samples_header_def Let_def del: check_samples.simps)

theorem Samples_write_header_witness:
  "Samples_write (\<lambda>w. show_int w @ ''.000000'') samples_two =
     (Some (''1 2 1 1'' @ [CHR 0x0A] @ ''a 0 b c 1.000000 1 2 3 4'' @ [CHR 0x0A] @
            ''b 1 a a 2.000000 5 6 7 8'' @ [CHR 0x0A]), None)
   \<and> Samples_write (\<lambda>w. show_int w @ ''.000000'') samples_mismatch = (None, Some AssertionError)"
proof -
  have d: "show_int 0 = ''0''" "show_int 1 = ''1''" "show_int 2 = ''2''"
    by code_simp+
  have a: "list_all (agrees 2 1 1) (samples samples_two)"
    by (simp add: samples_two_def agrees_def)
  have b: "\<not> list_all (agrees 2 1 1) (samples samples_mismatch)"
    by (simp add: samples_mismatch_def agrees_def)
  have "Samples_write (\<lambda>w. show_int w @ ''.000000'') samples_two =
     (Some ((''1 '' @ show_int 2 @ '' '' @ show_int 1 @ '' '' @ show_int 1 @ [CHR 0x0A])
            @ concat (map (writeSample (\<lambda>w. show_int w @ ''.000000'')) (samples samples_two))), None)"
    using Samples_write_header [of samples_two _ _ 2 1 1] a by (simp add: samples_two_def)
  moreover have "Samples_write (\<lambda>w. show_int w @ ''.000000'') samples_mismatch
      = (None, Some AssertionError)"
    using Samples_write_header [of samples_mismatch _ _ 2 1 1] b by (simp add: samples_mismatch_def)
  ultimately show ?thesis
    by (simp add: samples_two_def writeSample_def d)
qed

section \<open>Decimal numerals and tokens\<close>

lemma digit_char_props:
  assumes "d < 10"
  shows "is_digit (digit_char d)" "digit_val (digit_char d) = d" "\<not> is_space (digit_char d)"
proof -
  have m: "(48 + d) mod 256 = 48 + d" using assms by simp
  show "is_digit (digit_char d)" using assms m by (simp add: is_digit_def digit_char_def)
  show "digit_val (digit_char d) = d" using assms m by (simp add: digit_val_def digit_char_def)
  have "of_char (digit_char d) = (48 + d)" using m by (simp add: digit_char_def)
  then have "\<forall>c \<in> set [CHR '' '', CHR 0x09, CHR 0x0A, CHR 0x0B, CHR 0x0C, CHR 0x0D]. (of_char c :: nat) \<noteq> of_char (digit_char d)"
    by simp
  then show "\<not> is_space (digit_char d)" unfolding is_space_def by fastforce
qed

lemma is_digit_not_space: "is_digit c \<Longrightarrow> \<not> is_space c"
  by (auto simp: is_digit_def is_space_def)

lemma show_nat_digits: "list_all is_digit (show_nat n) \<and> show_nat n \<noteq> []"
proof (induction n rule: show_nat.induct)
  case (1 n)
  show ?case
  proof (cases "n < 10")
    case True
    then show ?thesis by (subst (1 2) show_nat.simps) (simp add: digit_char_props)
  next
    case False
    with 1 show ?thesis by (subst (1 2) show_nat.simps) (simp add: digit_char_props)
  qed
qed

lemma digits_val_snoc: "digits_val (s @ [c]) = 10 * digits_val s + digit_val c"
  by (simp add: digits_val_def)

lemma digits_val_show_nat: "digits_val (show_nat n) = n"
proof (induction n rule: show_nat.induct)
  case (1 n)
  show ?case
  proof (cases "n < 10")
    case True
    then show ?thesis by (subst show_nat.simps) (simp add: digit_char_props digits_val_def)
  next
    case False
    with 1 show ?thesis by (subst show_nat.simps) (simp add: digit_char_props digits_val_snoc)
  qed
qed

lemma parse_digits_show_nat: "parse_digits (show_nat n) = Some n"
  using show_nat_digits [of n] by (simp add: parse_digits_def digits_val_show_nat)

lemma py_strip_id:
  assumes "list_all (\<lambda>c. \<not> is_space c) s"
  shows "py_strip s = s"
proof (cases s)
  case Nil then show ?thesis by (simp add: py_strip_def)
next
  case (Cons c cs)
  have 1: "dropWhile is_space s = s" using assms Cons by simp
  have "hd (rev s) \<in> set s" using Cons by (metis hd_in_set list.distinct(1) rev_is_Nil_conv set_rev)
  then have "rev s \<noteq> [] \<and> \<not> is_space (hd (rev s))" using assms Cons
    by (auto simp: list_all_iff)
  then have 2: "dropWhile is_space (rev s) = rev s" by (cases "rev s") auto
  show ?thesis by (simp add: py_strip_def 1 2)
qed

lemma show_int_no_space: "list_all (\<lambda>c. \<not> is_space c) (show_int k)"
proof -
  have "list_all (\<lambda>c. \<not> is_space c) (show_nat n)" for n
    using show_nat_digits [of n] by (auto simp: list_all_iff is_digit_not_space)
  moreover have "\<not> is_space CHR ''-''" by (simp add: is_space_def)
  ultimately show ?thesis by (simp add: show_int_def)
qed

lemma show_nat_hd: "hd (show_nat n) \<noteq> CHR ''-'' \<and> hd (show_nat n) \<noteq> CHR ''+''"
proof -
  have "is_digit (hd (show_nat n))" using show_nat_digits [of n]
    by (cases "show_nat n") auto
  then show ?thesis by (auto simp: is_digit_def)
qed

lemma py_int_show_int: "py_int (show_int k) = Inr k"
proof (cases "k < 0")
  case True
  then show ?thesis
    using py_strip_id [OF show_int_no_space, of k]
    by (simp add: py_int_def show_int_def parse_digits_show_nat)
next
  case False
  obtain c cs where s: "show_nat (nat k) = c # cs"
    using show_nat_digits [of "nat k"] by (cases "show_nat (nat k)") auto
  with show_nat_hd [of "nat k"] have c: "c \<noteq> CHR ''-''" "c \<noteq> CHR ''+''" by auto
  have "parse_digits (c # cs) = Some (nat k)" using parse_digits_show_nat [of "nat k"] s by simp
  then show ?thesis
    using py_strip_id [OF show_int_no_space, of k] False s c
    by (simp add: py_int_def show_int_def)
qed

section \<open>Round trip of the phone symbol table\<close>

lemma lines_from_line:
  "CHR 0x0A \<notin> set l \<Longrightarrow> lines_from cur (l @ CHR 0x0A # rest) = (cur @ l @ [CHR 0x0A]) # lines_from [] rest"
  by (induction l arbitrary: cur) auto

lemma split_ws_token:
  "list_all (\<lambda>c. \<not> is_space c) tok \<Longrightarrow> split_ws cur (tok @ rest) = split_ws (cur @ tok) rest"
  by (induction tok arbitrary: cur) auto

lemma space_chars: "is_space CHR '' ''" "is_space CHR 0x0A"
  by (simp_all add: is_space_def)

lemma py_split_entry:
  assumes "is_token a" "is_token b"
  shows "py_split (a @ '' '' @ b @ [CHR 0x0A]) = [a, b]"
proof -
  have a: "list_all (\<lambda>c. \<not> is_space c) a" "a \<noteq> []" and b: "list_all (\<lambda>c. \<not> is_space c) b" "b \<noteq> []"
    using assms by (simp_all add: is_token_def)
  have "split_ws [] (a @ CHR '' '' # b @ [CHR 0x0A]) = split_ws a (CHR '' '' # b @ [CHR 0x0A])"
    using split_ws_token [OF a(1), of "[]"] by simp
  also have "\<dots> = a # split_ws [] (b @ [CHR 0x0A])" using a(2) by (simp add: space_chars)
  also have "split_ws [] (b @ [CHR 0x0A]) = split_ws b [CHR 0x0A]"
    using split_ws_token [OF b(1), of "[]"] by simp
  also have "\<dots> = [b]" using b(2) by (simp add: space_chars)
  finally show ?thesis by (simp add: py_split_def)
qed

lemma py_strip_nonempty:
  assumes "is_token a"
  shows "py_strip (a @ rest) \<noteq> []"
proof -
  obtain c cs where a: "a = c # cs" "\<not> is_space c" using assms by (cases a) (auto simp: is_token_def)
  then have 1: "dropWhile is_space (a @ rest) = a @ rest" by simp
  have "c \<in> set (rev (a @ rest))" using a by simp
  then have "dropWhile is_space (rev (a @ rest)) \<noteq> []" using a(2)
    by (metis dropWhile_eq_Nil_conv)
  then show ?thesis by (simp add: py_strip_def 1)
qed

lemma show_int_token: "is_token (show_int k)"
  using show_int_no_space [of k] show_nat_digits by (auto simp: is_token_def show_int_def)

lemma read_line_entry:
  assumes "is_token (snd e)" "fst e \<noteq> 0"
  shows "read_line t (write_entry e) =
     Inr (t\<lparr>symbols_tab := AList.update (fst e) (snd e) (symbols_tab t),
            keys_tab := (keys_tab t)(snd e \<mapsto> fst e)\<rparr>)"
  using py_split_entry [OF assms(1) show_int_token, of "fst e"] py_strip_nonempty [OF assms(1)] assms(2)
  by (simp add: read_line_def write_entry_def py_int_show_int)

lemma eps_line: "read_line t (''.eps 0'' @ [CHR 0x0A]) = Inr t"
proof -
  have 1: "is_token ''.eps''" "is_token ''0''" by (simp_all add: is_token_def is_space_def)
  have 2: "py_int ''0'' = Inr 0"
    by (simp add: py_int_def py_strip_def is_space_def parse_digits_def is_digit_def digits_val_def digit_val_def)
  show ?thesis using py_split_entry [OF 1] py_strip_nonempty [OF 1(1), of "'' 0'' @ [CHR 0x0A]"]
    by (simp add: read_line_def 2)
qed

lemma write_entry_line:
  assumes "is_token (snd e)"
  shows "\<exists>l. write_entry e = l @ [CHR 0x0A] \<and> CHR 0x0A \<notin> set l"
proof -
  have "CHR 0x0A \<notin> set (snd e)" using assms space_chars(2) by (auto simp: is_token_def list_all_iff)
  moreover have "CHR 0x0A \<notin> set (show_int (fst e))" using show_int_no_space [of "fst e"] space_chars(2)
    by (auto simp: list_all_iff)
  ultimately show ?thesis by (auto simp: write_entry_def)
qed

lemma py_lines_entries:
  "storable es \<Longrightarrow> lines_from [] (concat (map write_entry es)) = map write_entry es"
proof (induction es)
  case Nil then show ?case by simp
next
  case (Cons e es)
  from Cons.prems have tv: "is_token (snd e)" and st: "storable es" by (simp_all add: storable_def)
  from write_entry_line [OF tv] obtain l where l: "write_entry e = l @ [CHR 0x0A]" "CHR 0x0A \<notin> set l"
    by blast
  show ?case using lines_from_line [OF l(2), of "[]" "concat (map write_entry es)"] l(1) Cons.IH [OF st]
    by simp
qed

lemma read_lines_entries:
  "storable es \<Longrightarrow> \<exists>al. read_lines t (map write_entry es) =
       Inr (t\<lparr>symbols_tab := al,
              keys_tab := keys_tab t ++ map_of (rev (map (\<lambda>kv. (snd kv, fst kv)) es))\<rparr>)
     \<and> map_of al = map_of (symbols_tab t) ++ map_of (rev es)"
proof (induction es arbitrary: t)
  case Nil
  show ?case by (rule exI [of _ "symbols_tab t"]) simp
next
  case (Cons e es)
  from Cons.prems have tv: "is_token (snd e)" "fst e \<noteq> 0" and st: "storable es"
    by (simp_all add: storable_def)
  define t1 where "t1 = t\<lparr>symbols_tab := AList.update (fst e) (snd e) (symbols_tab t),
            keys_tab := (keys_tab t)(snd e \<mapsto> fst e)\<rparr>"
  from Cons.IH [OF st, of t1] obtain al where
    al: "read_lines t1 (map write_entry es) =
       Inr (t1\<lparr>symbols_tab := al,
              keys_tab := keys_tab t1 ++ map_of (rev (map (\<lambda>kv. (snd kv, fst kv)) es))\<rparr>)"
      "map_of al = map_of (symbols_tab t1) ++ map_of (rev es)"
    by blast
  have k: "keys_tab t1 ++ map_of (rev (map (\<lambda>kv. (snd kv, fst kv)) es))
      = keys_tab t ++ map_of (rev (map (\<lambda>kv. (snd kv, fst kv)) (e # es)))"
    by (rule ext) (simp add: t1_def map_add_def split: option.splits)
  have m: "map_of (symbols_tab t1) ++ map_of (rev es) = map_of (symbols_tab t) ++ map_of (rev (e # es))"
    by (rule ext) (simp add: t1_def update_conv' map_add_def split: option.splits)
  have r: "read_lines t (map write_entry (e # es)) = read_lines t1 (map write_entry es)"
    using read_line_entry [OF tv, of t] by (simp add: t1_def)
  have "read_lines t (map write_entry (e # es)) =
       Inr (t\<lparr>symbols_tab := al,
              keys_tab := keys_tab t ++ map_of (rev (map (\<lambda>kv. (snd kv, fst kv)) (e # es)))\<rparr>)"
    unfolding r al(1) k [symmetric] by (simp add: t1_def)
  moreover have "map_of al = map_of (symbols_tab t) ++ map_of (rev (e # es))"
    using al(2) m by simp
  ultimately show ?case by blast
qed

lemma map_of_rev_distinct: "distinct (map fst xs) \<Longrightarrow> map_of (rev xs) = map_of xs"
proof (induction xs)
  case Nil then show ?case by simp
next
  case (Cons x xs)
  then have "fst x \<notin> dom (map_of xs)" by (simp add: dom_map_of_conv_image_fst)
  then have "map_of xs (fst x) = None" by blast
  with Cons show ?case
    by (auto simp: map_add_def fun_eq_iff split: option.splits)
qed


text \<open>
  Claim C8, as the code has it. Take a table whose stored keys are all nonzero and
  whose stored symbols are non-empty and free of white space. Writing it and reading
  the text into a fresh table succeeds and gives the same key-to-symbol entries. The
  symbol-to-key dictionary that is read maps every stored symbol to the key it was
  written with, the last one when a symbol is stored under several keys; it is the
  table's own \<open>keys_\<close> whenever that is this inverse of the entries. The leading
  \<open>.eps 0\<close> line is skipped, so no entry with key 0 is read.
\<close>

theorem SymbolTable_roundtrip:
  assumes "distinct (map fst (symbols_tab t))" and "storable (symbols_tab t)"
  shows "\<exists>t'. SymbolTable_read SymbolTable (SymbolTable_write t) = Inr t'
      \<and> map_of (symbols_tab t') = map_of (symbols_tab t)
      \<and> keys_tab t' = map_of (rev (map (\<lambda>kv. (snd kv, fst kv)) (symbols_tab t)))
      \<and> (keys_tab t = map_of (rev (map (\<lambda>kv. (snd kv, fst kv)) (symbols_tab t)))
            \<longrightarrow> keys_tab t' = keys_tab t)
      \<and> map_of (symbols_tab t') 0 = None"
proof -
  let ?es = "symbols_tab t"
  have l: "py_lines (SymbolTable_write t) = (''.eps 0'' @ [CHR 0x0A]) # map write_entry ?es"
    using lines_from_line [of "''.eps 0''" "[]" "concat (map write_entry ?es)"]
      py_lines_entries [OF assms(2)]
    by (simp add: py_lines_def SymbolTable_write_def)
  from read_lines_entries [OF assms(2), of SymbolTable] obtain al where
    al: "read_lines SymbolTable (map write_entry ?es) =
       Inr (SymbolTable\<lparr>symbols_tab := al,
              keys_tab := keys_tab SymbolTable ++ map_of (rev (map (\<lambda>kv. (snd kv, fst kv)) ?es))\<rparr>)"
      "map_of al = map_of (symbols_tab SymbolTable) ++ map_of (rev ?es)"
    by blast
  have s: "map_of al = map_of ?es"
    using al(2) map_of_rev_distinct [OF assms(1)] by (simp add: SymbolTable_def)
  have k: "keys_tab SymbolTable ++ map_of (rev (map (\<lambda>kv. (snd kv, fst kv)) ?es))
      = map_of (rev (map (\<lambda>kv. (snd kv, fst kv)) ?es))"
    by (simp add: SymbolTable_def)
  have z: "map_of ?es 0 = None"
  proof -
    have "0 \<notin> fst ` set ?es" using assms(2) by (auto simp: storable_def list_all_iff)
    then show ?thesis by (simp add: map_of_eq_None_iff)
  qed
  show ?thesis
    unfolding SymbolTable_read_def l using eps_line [of SymbolTable] al(1) s k z by simp
qed

theorem SymbolTable_roundtrip_witness:
  "distinct (map fst (symbols_tab table_dup)) \<and> storable (symbols_tab table_dup) \<and>
   keys_tab table_dup = map_of (rev (map (\<lambda>kv. (snd kv, fst kv)) (symbols_tab table_dup))) \<and>
   (\<exists>t'. SymbolTable_read SymbolTable (SymbolTable_write table_dup) = Inr t'
      \<and> map_of (symbols_tab t') = map_of (symbols_tab table_dup)
      \<and> keys_tab t' = keys_tab table_dup
      \<and> map_of (symbols_tab t') 0 = None)"
proof -
  have d: "distinct (map fst (symbols_tab table_dup))"
    by (simp add: table_dup_def)
  have s: "storable (symbols_tab table_dup)"
    by (simp add: storable_def table_dup_def is_token_def is_space_def)
  have k: "keys_tab table_dup = map_of (rev (map (\<lambda>kv. (snd kv, fst kv)) (symbols_tab table_dup)))"
    by (auto simp: table_dup_def fun_eq_iff)
  from SymbolTable_roundtrip [OF d s] d s k show ?thesis by auto
qed

text \<open>
  The claim as stated asks only for nonzero keys. A stored symbol with a blank in it is
  written as two tokens, and reading the line back raises \<open>ValueError\<close>.
\<close>

theorem SymbolTable_roundtrip_counterexample:
  "map fst (symbols_tab table_spaced) = [1] \<and>
   SymbolTable_write table_spaced = ''.eps 0'' @ [CHR 0x0A] @ ''a b 1'' @ [CHR 0x0A] \<and>
   SymbolTable_read SymbolTable (SymbolTable_write table_spaced) = Inl ValueError"
proof -
  have w: "SymbolTable_write table_spaced = ''.eps 0'' @ [CHR 0x0A] @ ''a b 1'' @ [CHR 0x0A]"
    by code_simp
  have l: "py_lines (''.eps 0'' @ [CHR 0x0A] @ ''a b 1'' @ [CHR 0x0A])
      = [''.eps 0'' @ [CHR 0x0A], ''a b 1'' @ [CHR 0x0A]]"
    by (simp add: py_lines_def)
  have b: "read_line SymbolTable (''a b 1'' @ [CHR 0x0A]) = Inl ValueError"
    by (simp add: read_line_def py_split_def py_strip_def is_space_def)
  have r: "SymbolTable_read SymbolTable (''.eps 0'' @ [CHR 0x0A] @ ''a b 1'' @ [CHR 0x0A]) = Inl ValueError"
    unfolding SymbolTable_read_def l using eps_line [of SymbolTable] b by simp
  show ?thesis using w r by (simp add: table_spaced_def)
qed

section \<open>Properties of symbol conversion\<close>

lemma set_set_add: "set (set_add x xs) = insert x (set xs)"
  by (auto simp: set_add_def)

lemma set_set_update: "set (set_update xs ys) = set xs \<union> set ys"
  unfolding set_update_def by (induction ys arbitrary: xs) (auto simp: set_set_add)

lemma base_phone_neq: "base_phone s \<noteq> s \<longleftrightarrow> CHR ''@'' \<in> set s"
proof -
  have "takeWhile (\<lambda>c. c \<noteq> CHR ''@'') s = s \<longleftrightarrow> (\<forall>x\<in>set s. x \<noteq> CHR ''@'')"
    by (rule takeWhile_eq_all_conv)
  then show ?thesis unfolding base_phone_def by blast
qed

lemma contains_iff: "contains sub s \<longleftrightarrow> (\<exists>pre suf. s = pre @ sub @ suf)"
proof (induction s)
  case Nil
  then show ?case by auto
next
  case (Cons c cs)
  have a: "take (length sub) (c # cs) = sub \<longleftrightarrow> (\<exists>suf. c # cs = sub @ suf)"
    by (metis append_eq_conv_conj append_take_drop_id)
  show ?case
  proof
    assume "contains sub (c # cs)"
    then consider "take (length sub) (c # cs) = sub" | "contains sub cs" by auto
    then show "\<exists>pre suf. c # cs = pre @ sub @ suf"
    proof cases
      case 1
      with a obtain suf where "c # cs = [] @ sub @ suf" by auto
      then show ?thesis by blast
    next
      case 2
      with Cons.IH obtain pre suf where "cs = pre @ sub @ suf" by blast
      then have "c # cs = (c # pre) @ sub @ suf" by simp
      then show ?thesis by blast
    qed
  next
    assume "\<exists>pre suf. c # cs = pre @ sub @ suf"
    then obtain pre suf where p: "c # cs = pre @ sub @ suf" by blast
    show "contains sub (c # cs)"
    proof (cases pre)
      case Nil
      with p have "\<exists>suf. c # cs = sub @ suf" by auto
      with a have "take (length sub) (c # cs) = sub" by blast
      then show ?thesis by simp
    next
      case (Cons d pre')
      with p have "cs = pre' @ sub @ suf" by simp
      with Cons.IH show ?thesis by auto
    qed
  qed
qed

lemma step_initial:
  "set (initial_phones (setSymbols_step c s)) =
     set (initial_phones c) \<union> (if contains ''@i'' s then {s} else {})"
  by (simp add: setSymbols_step_def Let_def set_set_add)

lemma step_final:
  "set (final_phones (setSymbols_step c s)) =
     set (final_phones c) \<union> (if contains ''@f'' s then {s} else {})"
  by (simp add: setSymbols_step_def Let_def set_set_add)

lemma step_classes:
  "map_of (phone_classes (setSymbols_step c s)) b =
     (if base_phone s \<noteq> s \<and> base_phone s = b
      then Some ((case map_of (phone_classes c) b of None \<Rightarrow> [] | Some l \<Rightarrow> l) @ [s])
      else map_of (phone_classes c) b)"
  by (simp add: setSymbols_step_def Let_def update_conv')

lemma fold_initial:
  "set (initial_phones (foldl setSymbols_step c syms)) =
     set (initial_phones c) \<union> {s \<in> set syms. contains ''@i'' s}"
  by (induction syms arbitrary: c) (auto simp: step_initial)

lemma fold_final:
  "set (final_phones (foldl setSymbols_step c syms)) =
     set (final_phones c) \<union> {s \<in> set syms. contains ''@f'' s}"
  by (induction syms arbitrary: c) (auto simp: step_final)

lemma variants_Cons:
  "variants b (s # syms) =
     (if base_phone s \<noteq> s \<and> base_phone s = b then s # variants b syms else variants b syms)"
  by (simp add: variants_def base_phone_neq)

lemma fold_classes:
  "map_of (phone_classes (foldl setSymbols_step c syms)) b =
     (if variants b syms = [] then map_of (phone_classes c) b
      else Some ((case map_of (phone_classes c) b of None \<Rightarrow> [] | Some l \<Rightarrow> l) @ variants b syms))"
proof (induction syms arbitrary: c)
  case Nil
  then show ?case by (simp add: variants_def)
next
  case (Cons s syms)
  have f: "foldl setSymbols_step c (s # syms) = foldl setSymbols_step (setSymbols_step c s) syms"
    by simp
  show ?case
  proof (cases "base_phone s \<noteq> s \<and> base_phone s = b")
    case True
    have v: "variants b (s # syms) = s # variants b syms" by (rule trans [OF variants_Cons if_P [OF True]])
    have m: "map_of (phone_classes (setSymbols_step c s)) b
        = Some ((case map_of (phone_classes c) b of None \<Rightarrow> [] | Some l \<Rightarrow> l) @ [s])"
      by (rule trans [OF step_classes if_P [OF True]])
    show ?thesis unfolding f Cons.IH v m by simp
  next
    case False
    have v: "variants b (s # syms) = variants b syms" by (rule trans [OF variants_Cons if_not_P [OF False]])
    have m: "map_of (phone_classes (setSymbols_step c s)) b = map_of (phone_classes c) b"
      by (rule trans [OF step_classes if_not_P [OF False]])
    show ?thesis unfolding f Cons.IH v m by simp
  qed
qed

text \<open>
  Claim C7. \<open>setSymbols\<close> on a new converter and any symbol table: the initial-phone
  set holds exactly the symbols that contain \<open>@i\<close>, the final-phone set exactly those
  that contain \<open>@f\<close>, and the phone-class map sends a base phone \<open>b\<close> to the list of
  the symbols that contain \<open>@\<close> and have \<open>b\<close> before their first \<open>@\<close>; a base phone
  with no such symbol has no entry, so a symbol without \<open>@\<close> is in no class. For the
  symbols \<open>a\<close>, \<open>a@i\<close>, \<open>a@f\<close>, \<open>b\<close> the classes are \<open>{a: [a@i, a@f]}\<close>.
\<close>

theorem setSymbols_sets:
  "set (initial_phones (setSymbols SymbolConverter tab)) = {s \<in> set (SymbolTable_symbols tab). contains ''@i'' s}
 \<and> set (final_phones (setSymbols SymbolConverter tab)) = {s \<in> set (SymbolTable_symbols tab). contains ''@f'' s}
 \<and> map_of (phone_classes (setSymbols SymbolConverter tab)) b =
      (if variants b (SymbolTable_symbols tab) = [] then None else Some (variants b (SymbolTable_symbols tab)))"
  by (simp add: setSymbols_def fold_initial fold_final fold_classes SymbolConverter_def)

theorem setSymbols_sets_witness:
  "set (initial_phones (setSymbols SymbolConverter table_abfb)) = {''a@i''}
 \<and> set (final_phones (setSymbols SymbolConverter table_abfb)) = {''a@f''}
 \<and> map_of (phone_classes (setSymbols SymbolConverter table_abfb)) ''a'' = Some [''a@i'', ''a@f'']
 \<and> map_of (phone_classes (setSymbols SymbolConverter table_abfb)) ''b'' = None
 \<and> phone_classes (setSymbols SymbolConverter table_abfb) = [(''a'', [''a@i'', ''a@f''])]"
proof -
  have s: "SymbolTable_symbols table_abfb = [''a'', ''a@i'', ''a@f'', ''b'']"
    by (simp add: SymbolTable_symbols_def table_abfb_def)
  have i: "{s \<in> set (SymbolTable_symbols table_abfb). contains ''@i'' s} = {''a@i''}"
    unfolding s by auto
  have f: "{s \<in> set (SymbolTable_symbols table_abfb). contains ''@f'' s} = {''a@f''}"
    unfolding s by auto
  have va: "variants ''a'' (SymbolTable_symbols table_abfb) = [''a@i'', ''a@f'']"
    unfolding s by (simp add: variants_def base_phone_def)
  have vb: "variants ''b'' (SymbolTable_symbols table_abfb) = []"
    unfolding s by (simp add: variants_def base_phone_def)
  have pc: "phone_classes (setSymbols SymbolConverter table_abfb) = [(''a'', [''a@i'', ''a@f''])]"
    unfolding setSymbols_def s
    by (simp add: setSymbols_step_def SymbolConverter_def base_phone_def set_add_def Let_def)
  from setSymbols_sets [of table_abfb "''a''"] setSymbols_sets [of table_abfb "''b''"] i f va vb pc
  show ?thesis by simp
qed

section \<open>Properties of the boundary questions\<close>

lemma within_step_within:
  "map_of (questions q) ''is_within'' = Some w \<Longrightarrow>
   map_of (questions (within_step b q p)) ''is_within'' = Some (w @ (if p \<notin> set b then [p] else []))"
  by (simp add: within_step_def update_conv')

lemma within_step_other:
  "k \<noteq> ''is_within'' \<Longrightarrow> map_of (questions (within_step b q p)) k = map_of (questions q) k"
  by (simp add: within_step_def update_conv')

lemma within_fold_within:
  "map_of (questions q) ''is_within'' = Some w \<Longrightarrow>
   map_of (questions (foldl (within_step b) q all)) ''is_within''
     = Some (w @ filter (\<lambda>p. p \<notin> set b) all)"
proof (induction all arbitrary: q w)
  case Nil then show ?case by simp
next
  case (Cons p all)
  from within_step_within [OF Cons.prems, of b p]
  have "map_of (questions (within_step b q p)) ''is_within'' = Some (w @ (if p \<notin> set b then [p] else []))" .
  from Cons.IH [OF this] show ?case by simp
qed

lemma within_fold_other:
  "k \<noteq> ''is_within'' \<Longrightarrow> map_of (questions (foldl (within_step b) q all)) k = map_of (questions q) k"
  by (induction all arbitrary: q) (simp_all add: within_step_other)

lemma setInitialFinal_questions:
  "map_of (questions (setInitialFinal q i f all)) ''is_initial'' = Some i"
  "map_of (questions (setInitialFinal q i f all)) ''is_final'' = Some f"
  "map_of (questions (setInitialFinal q i f all)) ''is_within''
     = Some (filter (\<lambda>p. p \<notin> set i \<union> set f) all)"
proof -
  show "map_of (questions (setInitialFinal q i f all)) ''is_initial'' = Some i"
    by (simp add: setInitialFinal_def Let_def within_fold_other update_conv')
  show "map_of (questions (setInitialFinal q i f all)) ''is_final'' = Some f"
    by (simp add: setInitialFinal_def Let_def within_fold_other update_conv')
  have "map_of (questions (q\<lparr>questions := AList.update ''is_within'' []
          (AList.update ''is_final'' f (AList.update ''is_initial'' i (questions q)))\<rparr>)) ''is_within'' = Some []"
    by (simp add: update_conv')
  from within_fold_within [OF this, of "set_union i f" all]
  show "map_of (questions (setInitialFinal q i f all)) ''is_within''
     = Some (filter (\<lambda>p. p \<notin> set i \<union> set f) all)"
    by (simp add: setInitialFinal_def Let_def set_union_def set_set_update)
qed

lemma py_join_lines:
  "xs \<noteq> [] \<Longrightarrow> \<forall>x\<in>set xs. CHR 0x0A \<notin> set x \<Longrightarrow>
   lines_from [] (py_join [CHR 0x0A] xs @ [CHR 0x0A]) = map (\<lambda>x. x @ [CHR 0x0A]) xs"
proof (induction "[CHR 0x0A]" xs rule: py_join.induct)
  case 1
  then show ?case by simp
next
  case (2 x)
  then show ?case using lines_from_line [of x "[]" "[]"] by simp
next
  case (3 x y ys)
  then show ?case using lines_from_line [of x "[]" "py_join [CHR 0x0A] (y # ys) @ [CHR 0x0A]"] by simp
qed

text \<open>
  Claim C9. After \<open>setSymbols\<close> and \<open>setUseWordBoundary\<close> with the
  context-independent phones \<open>ci\<close>, every phone of \<open>ci\<close> is in the initial-phone set
  and in the final-phone set, whatever its spelling. It is therefore a line of the
  written initial and final phone lists (for phones that contain no line feed), a
  member of the questions \<open>is_initial\<close> and \<open>is_final\<close>, which are these two sets, and
  not a member of \<open>is_within\<close>.
\<close>

theorem ci_phones_boundary:
  assumes "p \<in> set ci"
    and "c = SymbolConverter_setUseWordBoundary (setSymbols c0 tab) use_wb ci"
    and "q = setInitialFinal Questions (initial_phones c) (final_phones c) (SymbolTable_symbols tab)"
  shows "p \<in> set (initial_phones c) \<and> p \<in> set (final_phones c)
     \<and> ((\<forall>x\<in>set (initial_phones c). CHR 0x0A \<notin> set x) \<longrightarrow>
           p @ [CHR 0x0A] \<in> set (py_lines (writeInitialPhones c)))
     \<and> ((\<forall>x\<in>set (final_phones c). CHR 0x0A \<notin> set x) \<longrightarrow>
           p @ [CHR 0x0A] \<in> set (py_lines (writeFinalPhones c)))
     \<and> map_of (questions q) ''is_initial'' = Some (initial_phones c)
     \<and> map_of (questions q) ''is_final'' = Some (final_phones c)
     \<and> (\<exists>w. map_of (questions q) ''is_within'' = Some w \<and> p \<notin> set w)"
proof -
  have i: "p \<in> set (initial_phones c)" and f: "p \<in> set (final_phones c)"
    using assms(1,2) by (simp_all add: SymbolConverter_setUseWordBoundary_def set_set_update)
  have li: "p @ [CHR 0x0A] \<in> set (py_lines (writeInitialPhones c))"
    if "\<forall>x\<in>set (initial_phones c). CHR 0x0A \<notin> set x"
  proof -
    have "initial_phones c \<noteq> []" using i by auto
    from py_join_lines [OF this that] i show ?thesis
      by (simp add: py_lines_def writeInitialPhones_def)
  qed
  have lf: "p @ [CHR 0x0A] \<in> set (py_lines (writeFinalPhones c))"
    if "\<forall>x\<in>set (final_phones c). CHR 0x0A \<notin> set x"
  proof -
    have "final_phones c \<noteq> []" using f by auto
    from py_join_lines [OF this that] f show ?thesis
      by (simp add: py_lines_def writeFinalPhones_def)
  qed
  have w: "p \<notin> set (filter (\<lambda>p. p \<notin> set (initial_phones c) \<union> set (final_phones c))
      (SymbolTable_symbols tab))"
    using i by simp
  show ?thesis
    using i f li lf w unfolding assms(3) setInitialFinal_questions by blast
qed

theorem ci_phones_boundary_witness:
  "''si'' \<in> set [''si'']
 \<and> initial_phones conv_si = [''a@i'', ''si''] \<and> final_phones conv_si = [''si'']
 \<and> ''si'' @ [CHR 0x0A] \<in> set (py_lines (writeInitialPhones conv_si))
 \<and> ''si'' @ [CHR 0x0A] \<in> set (py_lines (writeFinalPhones conv_si))
 \<and> map_of (questions questions_si) ''is_initial'' = Some [''a@i'', ''si'']
 \<and> map_of (questions questions_si) ''is_final'' = Some [''si'']
 \<and> (\<exists>w. map_of (questions questions_si) ''is_within'' = Some w \<and> ''si'' \<notin> set w)"
proof -
  have s: "SymbolTable_symbols table_si = [''si'', ''a'', ''a@i'']"
    by (simp add: SymbolTable_symbols_def table_si_def)
  have e: "initial_phones conv_si = [''a@i'', ''si'']" "final_phones conv_si = [''si'']"
    unfolding conv_si_def setSymbols_def s
    by (simp_all add: SymbolConverter_setUseWordBoundary_def setSymbols_step_def
        SymbolConverter_def base_phone_def set_add_def set_update_def Let_def)
  have m: "''si'' \<in> set [''si'']" by simp
  from ci_phones_boundary [OF m conv_si_def questions_si_def] e m
  show ?thesis by simp
qed

section \<open>Properties of the state-log parser\<close>

lemma addHmmIndex_fields:
  assumes "addHmmIndex hm cs st = Inr (hm1, idx)"
  shows "idx = length (models hm)" "models hm1 = models hm @ [[]]"
    "model_syms hm1 = model_syms hm" "ci_phones hm1 = ci_phones hm"
    "empty_context hm1 = empty_context hm"
  using assms by (auto simp: addHmmIndex_def Let_def split: sum.splits)

lemma py_index_nat: "py_index xs (int i) = (if i < length xs then Inr (xs ! i) else Inl IndexError)"
  by (simp add: py_index_def)

lemma collapse_Some:
  "empty_context hm = Some ec \<Longrightarrow> collapse hm ctx = Inr (if ctx \<subseteq> ci_phones hm then ec else ctx)"
  by (simp add: collapse_def)

lemma addModel_Inr:
  assumes "addModel hm name ctx = Inr hm'" and "empty_context hm = Some ec"
  shows "\<exists>cen ds n hm1 syms c0 c1 c2.
      name_re_match name = Some (cen, ds) \<and> py_int ds = Inr n
    \<and> py_index ctx 0 = Inr c0 \<and> py_index ctx 1 = Inr c1 \<and> py_index ctx 2 = Inr c2
    \<and> addHmmIndex hm (py_split c1) (n - 1) = Inr (hm1, length (models hm))
    \<and> model_syms hm = Some syms \<and> SymbolTable_find syms name > 0
    \<and> hm' = hm1\<lparr>models := models hm @
          [[(SymbolTable_find syms name - 2,
             stored_entry hm ec (set (py_split c1)) (set (py_split c0)) (set (py_split c2)))]]\<rparr>"
proof -
  from assms(1) obtain cen ds where m: "name_re_match name = Some (cen, ds)"
    by (auto simp: addModel_def split: option.splits)
  from assms(1) m obtain n where n: "py_int ds = Inr n"
    by (auto simp: addModel_def split: sum.splits)
  from assms(1) m n obtain c1 where c1: "py_index ctx 1 = Inr c1"
    by (auto simp: addModel_def Let_def split: sum.splits)
  from assms(1) m n c1 obtain hm1 idx where h: "addHmmIndex hm (py_split c1) (n - 1) = Inr (hm1, idx)"
    by (auto simp: addModel_def Let_def split: sum.splits)
  note f = addHmmIndex_fields [OF h]
  from assms(1) m n c1 h obtain syms where s: "model_syms hm1 = Some syms"
    by (auto simp: addModel_def Let_def split: option.splits)
  from assms(1) m n c1 h s have k: "SymbolTable_find syms name > 0"
    by (auto simp: addModel_def Let_def split: if_splits)
  from assms(1) m n c1 h s k obtain c0 where c0: "py_index ctx 0 = Inr c0"
    by (auto simp: addModel_def Let_def split: sum.splits)
  from assms(1) m n c1 h s k c0 obtain c2 where c2: "py_index ctx 2 = Inr c2"
    by (auto simp: addModel_def Let_def split: sum.splits)
  have e: "empty_context hm1 = Some ec" using f(5) assms(2) by simp
  have g: "py_index (models hm @ [[]]) (int (length (models hm))) = Inr []"
    by (simp add: py_index_nat)
  have u: "(models hm @ [[]])[length (models hm) := x] = models hm @ [x]" for x
    by simp
  from assms(1) have "hm' = hm1\<lparr>models := models hm @
          [[(SymbolTable_find syms name - 2,
             stored_entry hm ec (set (py_split c1)) (set (py_split c0)) (set (py_split c2)))]]\<rparr>"
    unfolding addModel_def
    by (simp add: m n c1 h s k c0 c2 g u collapse_Some [OF e] Let_def f stored_entry_def)
  with m n c0 c1 c2 h s k f show ?thesis by auto
qed

lemma grow_eq: "grow cidx st = cidx @ replicate (nat (st + 1 - int (length cidx))) Map.empty"
proof (induction cidx st rule: grow.induct)
  case (1 cidx st)
  show ?case
  proof (cases "int (length cidx) \<le> st")
    case True
    then have "nat (st + 1 - int (length cidx)) = Suc (nat (st + 1 - int (length (cidx @ [Map.empty :: string \<rightharpoonup> nat list]))))"
      by simp
    with 1 [OF True] True show ?thesis
      by (subst grow.simps) (simp add: replicate_append_same)
  next
    case False
    then show ?thesis by (subst grow.simps) simp
  qed
qed

lemma grow_length: "length (grow cidx st) = max (length cidx) (nat (st + 1))"
  by (simp add: grow_eq)

lemma grow_nth: "j < length cidx \<Longrightarrow> grow cidx st ! j = cidx ! j"
  by (simp add: grow_eq nth_append)

lemma grow_set: "set (grow cidx st) \<subseteq> insert Map.empty (set cidx)"
  by (auto simp: grow_eq)

lemma index_tbl_Nil: "index_tbl tbl idx [] = tbl"
  by (simp add: index_tbl_def)

lemma index_tbl_Cons:
  "index_tbl (tbl(c \<mapsto> (case tbl c of None \<Rightarrow> [] | Some l \<Rightarrow> l) @ [idx])) idx cs
     = index_tbl tbl idx (c # cs)"
  by (rule ext) (simp add: index_tbl_def replicate_app_Cons_same)

lemma index_centers_ok:
  "0 \<le> st \<Longrightarrow> st < int (length cidx) \<Longrightarrow>
   index_centers cidx st idx cs = Inr (cidx[nat st := index_tbl (cidx ! nat st) idx cs])"
proof (induction cs arbitrary: cidx)
  case Nil
  then show ?case by (simp add: index_tbl_Nil)
next
  case (Cons c cs)
  let ?tbl = "cidx ! nat st"
  let ?new = "?tbl(c \<mapsto> (case ?tbl c of None \<Rightarrow> [] | Some l \<Rightarrow> l) @ [idx])"
  have p: "py_index cidx st = Inr ?tbl" using Cons.prems by (simp add: py_index_def)
  have q: "py_pos (length cidx) st = nat st" using Cons.prems by (simp add: py_pos_def)
  have t: "(if c \<notin> dom ?tbl then ?tbl(c \<mapsto> []) else ?tbl)
       (c \<mapsto> (case (if c \<notin> dom ?tbl then ?tbl(c \<mapsto> []) else ?tbl) c of None \<Rightarrow> [] | Some l \<Rightarrow> l) @ [idx])
     = ?new"
    by (auto simp: dom_def)
  have l: "st < int (length (cidx[nat st := ?new]))"
    using Cons.prems by simp
  have n: "nat st < length cidx" using Cons.prems by simp
  have "index_centers cidx st idx (c # cs) = index_centers (cidx[nat st := ?new]) st idx cs"
    by (simp only: index_centers.simps p q t Let_def sum.case)
  also have "\<dots> = Inr ((cidx[nat st := ?new])[nat st := index_tbl ((cidx[nat st := ?new]) ! nat st) idx cs])"
    by (rule Cons.IH [OF Cons.prems(1) l])
  also have "(cidx[nat st := ?new]) ! nat st = ?new" using n by simp
  also have "index_tbl ?new idx cs = index_tbl ?tbl idx (c # cs)" by (rule index_tbl_Cons)
  finally show ?case by simp
qed

lemma index_centers_length:
  "index_centers cidx st idx cs = Inr cidx' \<Longrightarrow> length cidx' = length cidx"
proof (induction cs arbitrary: cidx)
  case Nil
  then show ?case by simp
next
  case (Cons c cs)
  from Cons.prems obtain tbl where p: "py_index cidx st = Inr tbl"
    by (auto split: sum.splits)
  from Cons.prems p obtain new where "index_centers (cidx[py_pos (length cidx) st := new]) st idx cs = Inr cidx'"
    by (auto simp: Let_def)
  from Cons.IH [OF this] show ?case by simp
qed

lemma name_tail_no_underscore: "s = [] \<or> hd s \<noteq> CHR ''_'' \<Longrightarrow> name_tail s = None"
  by (cases s) (auto simp: name_tail_def)

lemma name_re_match_none: "CHR ''_'' \<notin> set s \<Longrightarrow> name_re_match s = None"
proof (induction s)
  case Nil
  then show ?case by simp
next
  case (Cons c cs)
  then have "name_re_match cs = None" "name_tail (c # cs) = None"
    by (auto simp: name_tail_def)
  then show ?case by auto
qed

lemma is_digit_chars: "is_digit c \<Longrightarrow> c \<noteq> CHR ''_'' \<and> c \<noteq> CHR ''.'' \<and> c \<noteq> CHR ''-'' \<and> c \<noteq> CHR ''+''"
  by (auto simp: is_digit_def)

lemma not_digit_dot: "\<not> is_digit CHR ''.''"
  by (simp add: is_digit_def)

lemma name_tail_form:
  assumes "ds \<noteq> []" "list_all is_digit ds" "suf \<noteq> []" "list_all is_digit suf"
  shows "name_tail (CHR ''_'' # ds @ CHR ''.'' # suf) = Some ds"
proof -
  obtain e r where s: "suf = e # r" "is_digit e" using assms(3,4) by (cases suf) auto
  have t: "takeWhile is_digit (ds @ CHR ''.'' # e # r) = ds"
    using assms(2) not_digit_dot by (simp add: takeWhile_append2 list_all_iff)
  have d: "dropWhile is_digit (ds @ CHR ''.'' # e # r) = CHR ''.'' # e # r"
    using assms(2) not_digit_dot by (simp add: dropWhile_append2 list_all_iff)
  show ?thesis using assms(1) s(2) unfolding s(1) by (simp add: name_tail_def t d Let_def)
qed

lemma name_re_match_form:
  assumes "CHR 0x0A \<notin> set cen" "ds \<noteq> []" "list_all is_digit ds" "suf \<noteq> []" "list_all is_digit suf"
  shows "name_re_match (cen @ CHR ''_'' # ds @ CHR ''.'' # suf) = Some (cen, ds)"
  using assms(1)
proof (induction cen)
  case Nil
  have "CHR ''_'' \<notin> set (ds @ CHR ''.'' # suf)"
    using assms(3,5) is_digit_chars by (auto simp: list_all_iff)
  then have "name_re_match (ds @ CHR ''.'' # suf) = None" by (rule name_re_match_none)
  then show ?case using name_tail_form [OF assms(2-5)] by simp
next
  case (Cons c cen)
  then show ?case by auto
qed

lemma name_tail_digits: "name_tail s = Some ds \<Longrightarrow> ds \<noteq> [] \<and> list_all is_digit ds"
  by (cases s) (auto simp: name_tail_def Let_def list_all_iff dest: set_takeWhileD split: if_splits list.splits)

lemma name_re_match_digits:
  "name_re_match s = Some (cen, ds) \<Longrightarrow> ds \<noteq> [] \<and> list_all is_digit ds"
proof (induction s arbitrary: cen)
  case Nil
  then show ?case by simp
next
  case (Cons c cs)
  show ?case
  proof (cases "if c = CHR 0x0A then None else name_re_match cs")
    case None
    with Cons.prems obtain ds' where "name_tail (c # cs) = Some ds'" "ds' = ds"
      by (auto split: option.splits)
    then show ?thesis using name_tail_digits by blast
  next
    case (Some p)
    obtain cen' ds' where p: "p = (cen', ds')" by (cases p)
    with Some Cons.prems have "ds' = ds" by auto
    moreover from Some p have "name_re_match cs = Some (cen', ds')" by (auto split: if_splits)
    ultimately show ?thesis using Cons.IH by blast
  qed
qed

lemma py_int_digits:
  assumes "ds \<noteq> []" "list_all is_digit ds"
  shows "py_int ds = Inr (int (digits_val ds))"
proof -
  have "list_all (\<lambda>c. \<not> is_space c) ds" using assms(2) is_digit_not_space by (auto simp: list_all_iff)
  then have s: "py_strip ds = ds" by (rule py_strip_id)
  obtain c cs where d: "ds = c # cs" using assms(1) by (cases ds) auto
  with assms(2) have "is_digit c" by simp
  then have c: "c \<noteq> CHR ''-''" "c \<noteq> CHR ''+''" using is_digit_chars by auto
  have "parse_digits (c # cs) = Some (digits_val ds)" using assms d by (simp add: parse_digits_def)
  then show ?thesis using s d c by (simp add: py_int_def)
qed

lemma SymbolTable_find_absent: "syms name = None \<Longrightarrow> SymbolTable_find syms name = - 1"
  by (simp add: SymbolTable_find_def)

lemma addModel_form:
  assumes nm: "name_re_match name = Some (cen, ds)" "py_int ds = Inr n"
    and n: "1 \<le> n"
    and ctx: "length ctx = 3"
    and syms: "model_syms hm = Some syms"
    and ec: "empty_context hm = Some ec"
  shows "addModel hm name ctx =
     (if SymbolTable_find syms name > 0 then
        Inr (hm\<lparr>center_idx := (grow (center_idx hm) (n - 1))
                   [nat (n - 1) := index_tbl (grow (center_idx hm) (n - 1) ! nat (n - 1))
                       (length (models hm)) (py_split (ctx ! 1))],
                models := models hm @
                  [[(SymbolTable_find syms name - 2,
                     stored_entry hm ec (set (py_split (ctx ! 1))) (set (py_split (ctx ! 0)))
                       (set (py_split (ctx ! 2))))]]\<rparr>)
      else Inl AssertionError)"
proof -
  define c0 c1 c2 where c: "c0 = ctx ! 0" "c1 = ctx ! 1" "c2 = ctx ! 2"
  have i: "py_index ctx 0 = Inr c0" "py_index ctx 1 = Inr c1" "py_index ctx 2 = Inr c2"
    using ctx by (simp_all add: py_index_def c)
  have l: "n - 1 < int (length (grow (center_idx hm) (n - 1)))" using n by (simp add: grow_length)
  have z: "0 \<le> n - 1" using n by simp
  define hm1 where "hm1 = hm\<lparr>center_idx := (grow (center_idx hm) (n - 1))
                   [nat (n - 1) := index_tbl (grow (center_idx hm) (n - 1) ! nat (n - 1))
                       (length (models hm)) (py_split c1)],
                models := models hm @ [[]]\<rparr>"
  have h: "addHmmIndex hm (py_split c1) (n - 1) = Inr (hm1, length (models hm))"
    by (simp add: addHmmIndex_def Let_def index_centers_ok [OF z l] hm1_def)
  have f: "model_syms hm1 = Some syms" "ci_phones hm1 = ci_phones hm" "empty_context hm1 = Some ec"
    "models hm1 = models hm @ [[]]"
    using syms ec by (simp_all add: hm1_def)
  have g: "py_index (models hm @ [[]]) (int (length (models hm))) = Inr []"
    by (simp add: py_index_nat)
  have u: "(models hm @ [[]])[length (models hm) := x] = models hm @ [x]" for x
    by simp
  have "addModel hm name ctx =
     (if SymbolTable_find syms name > 0 then
        Inr (hm1\<lparr>models := models hm @
                  [[(SymbolTable_find syms name - 2,
                     stored_entry hm ec (set (py_split c1)) (set (py_split c0)) (set (py_split c2)))]]\<rparr>)
      else Inl AssertionError)"
    unfolding addModel_def
    by (simp add: nm i h f g u collapse_Some [OF f(3)] Let_def stored_entry_def)
  then show ?thesis unfolding hm1_def c by simp
qed

text \<open>
  Claim C3, as the code has it. Let \<open>name_re\<close> match the state name with the digits
  \<open>ds\<close> as its second group, as it does on every name \<open>center_n.suffix\<close> with a digit
  suffix (lemma \<open>name_re_match_form\<close>), and let the number \<open>n\<close> they denote be at
  least 1, as a 1-based state is. If the symbol table's key for the full name is
  positive, \<open>_addModel\<close> returns: the new model group has the one local index key - 2,
  the group's index is appended under every center phone in the dictionary of state
  \<open>n - 1\<close>, which exists afterwards, and the dictionary of no other state is changed.
  If the key is not positive, or the name is not in the table, \<open>AssertionError\<close> is
  raised.
\<close>

theorem addModel_indexes:
  assumes "name_re_match name = Some (cen, ds)"
    and "1 \<le> digits_val ds"
    and "st = digits_val ds - 1"
    and "length ctx = 3" and "model_syms hm = Some syms" and "empty_context hm = Some ec"
  shows "(0 < SymbolTable_find syms name \<longrightarrow>
           (\<exists>hm'. addModel hm name ctx = Inr hm'
              \<and> (\<exists>entry. models hm' =
                    models hm @ [[(SymbolTable_find syms name - 2, entry)]])
              \<and> length (center_idx hm') = max (length (center_idx hm)) (Suc st)
              \<and> (\<forall>c \<in> set (py_split (ctx ! 1)).
                    \<exists>l. (center_idx hm' ! st) c = Some (l @ [length (models hm)]))
              \<and> (\<forall>j < length (center_idx hm'). j \<noteq> st \<longrightarrow>
                    center_idx hm' ! j =
                      (if j < length (center_idx hm) then center_idx hm ! j else Map.empty))))
       \<and> (\<not> 0 < SymbolTable_find syms name \<longrightarrow> addModel hm name ctx = Inl AssertionError)"
proof -
  let ?n = "int (digits_val ds)"
  note nm = assms(1)
  have dg: "ds \<noteq> []" "list_all is_digit ds" using name_re_match_digits [OF nm] by simp_all
  have pi: "py_int ds = Inr ?n" by (rule py_int_digits [OF dg])
  have n1: "1 \<le> ?n" using assms(2) by simp
  have st: "nat (?n - 1) = st" "?n - 1 = int st" using assms(2,3) by simp_all
  note f = addModel_form [OF nm pi n1 assms(4-6), unfolded st]
  let ?g = "grow (center_idx hm) (int st)"
  have gl: "length ?g = max (length (center_idx hm)) (Suc st)"
    by (simp add: grow_length nat_add_distrib)
  have sl: "st < length ?g" using gl by simp
  have gn: "?g ! j = (if j < length (center_idx hm) then center_idx hm ! j else Map.empty)"
    if "j < length ?g" for j
    using that by (auto simp: grow_eq nth_append)
  show ?thesis
  proof (intro conjI impI)
    assume k: "0 < SymbolTable_find syms name"
    let ?hm' = "hm\<lparr>center_idx := ?g[st := index_tbl (?g ! st) (length (models hm)) (py_split (ctx ! 1))],
                models := models hm @
                  [[(SymbolTable_find syms name - 2,
                     stored_entry hm ec (set (py_split (ctx ! 1))) (set (py_split (ctx ! 0)))
                       (set (py_split (ctx ! 2))))]]\<rparr>"
    have a: "addModel hm name ctx = Inr ?hm'" using f k by simp
    have b: "\<exists>entry. models ?hm' = models hm @ [[(SymbolTable_find syms name - 2, entry)]]"
      by simp
    have c: "length (center_idx ?hm') = max (length (center_idx hm)) (Suc st)"
      using gl by simp
    have d: "\<forall>c \<in> set (py_split (ctx ! 1)).
        \<exists>l. (center_idx ?hm' ! st) c = Some (l @ [length (models hm)])"
    proof
      fix c assume cin: "c \<in> set (py_split (ctx ! 1))"
      define cs where "cs = py_split (ctx ! 1)"
      have "count_list cs c \<noteq> 0" using cin count_list_0_iff [of cs c] by (simp add: cs_def)
      then obtain m where m: "count_list cs c = Suc m"
        by (cases "count_list cs c") auto
      have r: "replicate (Suc m) (length (models hm)) = replicate m (length (models hm)) @ [length (models hm)]"
        by (simp add: replicate_append_same)
      have "index_tbl (?g ! st) (length (models hm)) cs c
          = Some (((case (?g ! st) c of None \<Rightarrow> [] | Some l \<Rightarrow> l) @ replicate m (length (models hm)))
                  @ [length (models hm)])"
        using cin unfolding index_tbl_def cs_def [symmetric] m r by simp
      then show "\<exists>l. (center_idx ?hm' ! st) c = Some (l @ [length (models hm)])"
        using sl unfolding cs_def by auto
    qed
    have e: "\<forall>j < length (center_idx ?hm'). j \<noteq> st \<longrightarrow>
        center_idx ?hm' ! j = (if j < length (center_idx hm) then center_idx hm ! j else Map.empty)"
      using gn by simp
    from a b c d e
    show "\<exists>hm'. addModel hm name ctx = Inr hm'
              \<and> (\<exists>entry. models hm' =
                    models hm @ [[(SymbolTable_find syms name - 2, entry)]])
              \<and> length (center_idx hm') = max (length (center_idx hm)) (Suc st)
              \<and> (\<forall>c \<in> set (py_split (ctx ! 1)).
                    \<exists>l. (center_idx hm' ! st) c = Some (l @ [length (models hm)]))
              \<and> (\<forall>j < length (center_idx hm'). j \<noteq> st \<longrightarrow>
                    center_idx hm' ! j =
                      (if j < length (center_idx hm) then center_idx hm ! j else Map.empty))"
      by blast
  next
    assume "\<not> 0 < SymbolTable_find syms name"
    then show "addModel hm name ctx = Inl AssertionError" using f by simp
  qed
qed

text \<open>
  Claim C2. Whenever \<open>_addModel\<close> returns for a line with its three context groups, it
  has appended one model group with one entry \<open>(k, L, R)\<close>. If every center phone is
  context independent, \<open>L\<close> and \<open>R\<close> are empty, whatever the side groups are.
  Otherwise \<open>L\<close> is the one-element empty-context set if every phone of the left group
  is context independent and the set of the left group's phones if not, and likewise
  \<open>R\<close> for the right group.
\<close>

theorem addModel_collapse:
  assumes "addModel hm name ctx = Inr hm'" and "length ctx = 3" and "empty_context hm = Some {e}"
  shows "\<exists>k L R. models hm' = models hm @ [[(k, L, R)]]
     \<and> (set (py_split (ctx ! 1)) \<subseteq> ci_phones hm \<longrightarrow> L = {} \<and> R = {})
     \<and> (\<not> set (py_split (ctx ! 1)) \<subseteq> ci_phones hm \<longrightarrow>
          L = (if set (py_split (ctx ! 0)) \<subseteq> ci_phones hm then {e} else set (py_split (ctx ! 0)))
        \<and> R = (if set (py_split (ctx ! 2)) \<subseteq> ci_phones hm then {e} else set (py_split (ctx ! 2))))"
proof -
  from addModel_Inr [OF assms(1,3)] obtain hm1 syms c0 c1 c2 where
    c: "py_index ctx 0 = Inr c0" "py_index ctx 1 = Inr c1" "py_index ctx 2 = Inr c2" and
    h: "hm' = hm1\<lparr>models := models hm @
          [[(SymbolTable_find syms name - 2,
             stored_entry hm {e} (set (py_split c1)) (set (py_split c0)) (set (py_split c2)))]]\<rparr>"
    by blast
  have i: "c0 = ctx ! 0" "c1 = ctx ! 1" "c2 = ctx ! 2"
    using c assms(2) by (simp_all add: py_index_def)
  define L R where lr: "L = fst (stored_entry hm {e} (set (py_split c1)) (set (py_split c0)) (set (py_split c2)))"
    "R = snd (stored_entry hm {e} (set (py_split c1)) (set (py_split c0)) (set (py_split c2)))"
  have m: "models hm' = models hm @ [[(SymbolTable_find syms name - 2, L, R)]]"
    using h lr by simp
  have p: "set (py_split (ctx ! 1)) \<subseteq> ci_phones hm \<longrightarrow> L = {} \<and> R = {}"
    unfolding lr i stored_entry_def by simp
  have q: "\<not> set (py_split (ctx ! 1)) \<subseteq> ci_phones hm \<longrightarrow>
          L = (if set (py_split (ctx ! 0)) \<subseteq> ci_phones hm then {e} else set (py_split (ctx ! 0)))
        \<and> R = (if set (py_split (ctx ! 2)) \<subseteq> ci_phones hm then {e} else set (py_split (ctx ! 2)))"
    unfolding lr i stored_entry_def by simp
  from m p q show ?thesis by blast
qed

lemma cfg_a_fields:
  "center_idx cfg_a = []" "models cfg_a = []" "model_syms cfg_a = Some syms_a"
  "ci_phones cfg_a = {''si''}" "empty_context cfg_a = Some {''si''}"
  by (simp_all add: cfg_a_def configured_def setEmptyContext_def setCiPhones_def
      setModelSymbols_def HmmStateModels_def)

lemma digits_small: "is_digit CHR ''0''" "is_digit CHR ''1''" "digits_val ''1'' = 1"
  by (simp_all add: is_digit_def digits_val_def digit_val_def)

lemma names_a:
  "name_re_match ''a_1.0'' = Some (''a'', ''1'')"
  "name_re_match ''si_1.0'' = Some (''si'', ''1'')"
  "name_re_match ''b_1.0'' = Some (''b'', ''1'')"
  using name_re_match_form [of "''a''" "''1''" "''0''"] name_re_match_form [of "''si''" "''1''" "''0''"]
    name_re_match_form [of "''b''" "''1''" "''0''"]
  by (simp_all add: digits_small)

lemma splits_a:
  "py_split ''si'' = [''si'']" "py_split ''a'' = [''a'']" "py_split ''b'' = [''b'']"
  by (simp_all add: py_split_def is_space_def)

lemma grow_one: "grow [] 0 = [Map.empty]"
  by (simp add: grow_eq)

lemma addModel_a: "addModel cfg_a ''a_1.0'' [''si'', ''a'', ''si''] = Inr hm_a"
proof -
  have t: "index_tbl Map.empty 0 [''a''] = [''a'' \<mapsto> [0]]"
    by (rule ext) (simp add: index_tbl_def)
  have k: "SymbolTable_find syms_a ''a_1.0'' = 2"
    by (simp add: SymbolTable_find_def syms_a_def)
  show ?thesis
    using addModel_form [OF names_a(1) py_int_digit1, of "[''si'', ''a'', ''si'']" cfg_a syms_a "{''si''}"]
    by (simp add: cfg_a_fields k splits_a grow_one t stored_entry_def hm_a_def cfg_a_def
        configured_def setEmptyContext_def setCiPhones_def setModelSymbols_def HmmStateModels_def)
qed

lemma addModel_si: "addModel cfg_a ''si_1.0'' [''a'', ''si'', ''b''] = Inr hm_si"
proof -
  have t: "index_tbl Map.empty 0 [''si''] = [''si'' \<mapsto> [0]]"
    by (rule ext) (simp add: index_tbl_def)
  have k: "SymbolTable_find syms_a ''si_1.0'' = 3"
    by (simp add: SymbolTable_find_def syms_a_def)
  show ?thesis
    using addModel_form [OF names_a(2) py_int_digit1, of "[''a'', ''si'', ''b'']" cfg_a syms_a "{''si''}"]
    by (simp add: cfg_a_fields k splits_a grow_one t stored_entry_def hm_si_def cfg_a_def
        configured_def setEmptyContext_def setCiPhones_def setModelSymbols_def HmmStateModels_def)
qed

theorem addModel_collapse_witness:
  "addModel cfg_a ''a_1.0'' [''si'', ''a'', ''si''] = Inr hm_a
 \<and> (\<exists>k L R. models hm_a = [[(k, L, R)]] \<and> L = {''si''} \<and> R = {''si''})
 \<and> addModel cfg_a ''si_1.0'' [''a'', ''si'', ''b''] = Inr hm_si
 \<and> (\<exists>k L R. models hm_si = [[(k, L, R)]] \<and> L = {} \<and> R = {})"
proof -
  have l: "length [''si'', ''a'', ''si''] = 3" "length [''a'', ''si'', ''b''] = 3" by simp_all
  from addModel_collapse [OF addModel_a l(1) cfg_a_fields(5)]
  have a: "\<exists>k L R. models hm_a = [[(k, L, R)]] \<and> L = {''si''} \<and> R = {''si''}"
    by (simp add: cfg_a_fields splits_a)
  from addModel_collapse [OF addModel_si l(2) cfg_a_fields(5)]
  have b: "\<exists>k L R. models hm_si = [[(k, L, R)]] \<and> L = {} \<and> R = {}"
    by (simp add: cfg_a_fields splits_a)
  from a b addModel_a addModel_si show ?thesis by blast
qed

theorem addModel_indexes_witness:
  "(\<exists>hm'. addModel cfg_a ''a_1.0'' [''si'', ''a'', ''si''] = Inr hm'
      \<and> (\<exists>entry. models hm' = [[(0, entry)]])
      \<and> length (center_idx hm') = 1
      \<and> (\<exists>l. (center_idx hm' ! 0) ''a'' = Some (l @ [0])))
 \<and> addModel cfg_a ''b_1.0'' [''si'', ''b'', ''si''] = Inl AssertionError"
proof -
  have k: "SymbolTable_find syms_a ''a_1.0'' = 2" "SymbolTable_find syms_a ''b_1.0'' = - 1"
    by (simp_all add: SymbolTable_find_def syms_a_def)
  have a: "\<exists>hm'. addModel cfg_a ''a_1.0'' [''si'', ''a'', ''si''] = Inr hm'
      \<and> (\<exists>entry. models hm' = [[(0, entry)]])
      \<and> length (center_idx hm') = 1
      \<and> (\<exists>l. (center_idx hm' ! 0) ''a'' = Some (l @ [0]))"
    using addModel_indexes [OF names_a(1), of 0 "[''si'', ''a'', ''si'']" cfg_a syms_a "{''si''}"]
    by (simp add: digits_small cfg_a_fields k splits_a) blast
  have b: "addModel cfg_a ''b_1.0'' [''si'', ''b'', ''si''] = Inl AssertionError"
    using addModel_indexes [OF names_a(3), of 0 "[''si'', ''b'', ''si'']" cfg_a syms_a "{''si''}"]
    by (simp add: digits_small cfg_a_fields k)
  from a b show ?thesis by blast
qed


lemma hm_a_fields:
  "center_idx hm_a = [[''a'' \<mapsto> [0]]]" "models hm_a = [[(0, {''si''}, {''si''})]]"
  "model_syms hm_a = Some syms_a" "ci_phones hm_a = {''si''}" "empty_context hm_a = Some {''si''}"
  by (simp_all add: hm_a_def)

lemma name_a0: "name_re_match ''a_0.0'' = Some (''a'', ''0'')"
  using name_re_match_form [of "''a''" "''0''" "''0''"] by (simp add: digits_small)

lemma py_int_digit0: "py_int ''0'' = Inr 0"
  using py_int_digits [of "''0''"] by (simp add: digits_small digits_val_def digit_val_def)

text \<open>
  The claim as stated covers the state number 0, where \<open>n - 1\<close> is the Python index
  \<open>-1\<close>: on a model without state slots \<open>_addModel\<close> raises \<open>IndexError\<close>, and on a
  model with slots it indexes the group in the last slot, here that of state 0.
\<close>

theorem addModel_indexes_counterexample:
  "name_re_match ''a_0.0'' = Some (''a'', ''0'')
 \<and> addModel cfg_a ''a_0.0'' [''b'', ''a'', ''c''] = Inl IndexError
 \<and> addModel hm_a ''a_0.0'' [''b'', ''a'', ''c''] = Inr hm_a0
 \<and> length (center_idx hm_a0) = 1
 \<and> (center_idx hm_a0 ! 0) ''a'' = Some [0, 1]"
proof -
  have g: "grow [] (- 1) = []" "grow [[''a'' \<mapsto> [0::nat]]] (- 1) = [[''a'' \<mapsto> [0]]]"
    by (simp_all add: grow_eq)
  have k: "SymbolTable_find syms_a ''a_0.0'' = 4"
    by (simp add: SymbolTable_find_def syms_a_def)
  have a: "addModel cfg_a ''a_0.0'' [''b'', ''a'', ''c''] = Inl IndexError"
    by (simp add: addModel_def name_a0 py_int_digit0 py_index_def splits_a addHmmIndex_def
        cfg_a_fields g Let_def del: name_re_match.simps)
  have i: "index_centers [[''a'' \<mapsto> [0]]] (- 1) (Suc 0) [''a''] = Inr [[''a'' \<mapsto> [0, 1]]]"
    by (simp add: py_index_def py_pos_def Let_def)
  have s: "py_split ''c'' = [''c'']" by (simp add: py_split_def is_space_def)
  have b: "addModel hm_a ''a_0.0'' [''b'', ''a'', ''c''] = Inr hm_a0"
    by (simp add: addModel_def name_a0 py_int_digit0 py_index_def splits_a s addHmmIndex_def
        hm_a_fields g i k collapse_def Let_def del: name_re_match.simps index_centers.simps)
       (simp add: hm_a_def hm_a0_def)
  from a b name_a0 show ?thesis by (simp add: hm_a0_def)
qed

section \<open>Properties of the built model and of the lookup\<close>

lemma addModel_Inr_gen:
  assumes "addModel hm name ctx = Inr hm'"
  shows "\<exists>cen ds n c1 hm1 k entry.
      name_re_match name = Some (cen, ds) \<and> py_int ds = Inr n
    \<and> addHmmIndex hm (py_split c1) (n - 1) = Inr (hm1, length (models hm))
    \<and> hm' = hm1\<lparr>models := models hm @ [[(k, entry)]]\<rparr>"
proof -
  from assms obtain cen ds where m: "name_re_match name = Some (cen, ds)"
    by (auto simp: addModel_def split: option.splits)
  from assms m obtain n where n: "py_int ds = Inr n"
    by (auto simp: addModel_def split: sum.splits)
  from assms m n obtain c1 where c1: "py_index ctx 1 = Inr c1"
    by (auto simp: addModel_def Let_def split: sum.splits)
  from assms m n c1 obtain hm1 idx where h: "addHmmIndex hm (py_split c1) (n - 1) = Inr (hm1, idx)"
    by (auto simp: addModel_def Let_def split: sum.splits)
  note f = addHmmIndex_fields [OF h]
  from assms m n c1 h obtain syms where s: "model_syms hm1 = Some syms"
    by (auto simp: addModel_def Let_def split: option.splits)
  from assms m n c1 h s have k: "SymbolTable_find syms name > 0"
    by (auto simp: addModel_def Let_def split: if_splits)
  from assms m n c1 h s k obtain c0 where c0: "py_index ctx 0 = Inr c0"
    by (auto simp: addModel_def Let_def split: sum.splits)
  from assms m n c1 h s k c0 obtain c2 where c2: "py_index ctx 2 = Inr c2"
    by (auto simp: addModel_def Let_def split: sum.splits)
  from assms m n c1 h s k c0 c2 obtain L where l: "collapse hm1 (set (py_split c0)) = Inr L"
    by (auto simp: addModel_def Let_def split: sum.splits)
  from assms m n c1 h s k c0 c2 l obtain R where r: "collapse hm1 (set (py_split c2)) = Inr R"
    by (auto simp: addModel_def Let_def split: sum.splits)
  have g: "py_index (models hm @ [[]]) (int (length (models hm))) = Inr []"
    by (simp add: py_index_nat)
  have u: "(models hm @ [[]])[length (models hm) := x] = models hm @ [x]" for x
    by simp
  from assms have "hm' = hm1\<lparr>models := models hm @
          [[(SymbolTable_find syms name - 2,
             if set (py_split c1) \<subseteq> ci_phones hm then ({}, {}) else (L, R))]]\<rparr>"
    unfolding addModel_def
    by (simp add: m n c1 h s k c0 c2 l r g u Let_def f)
  with m n h f(1) show ?thesis by blast
qed

lemma py_index_mem: "py_index xs i = Inr x \<Longrightarrow> x \<in> set xs"
  by (auto simp: py_index_def split: if_splits)

lemma index_centers_bounded:
  assumes "index_centers cidx st idx cs = Inr cidx'" and "\<forall>tbl \<in> set cidx. bounded_tbl idx tbl"
  shows "\<forall>tbl \<in> set cidx'. bounded_tbl idx tbl"
  using assms
proof (induction cs arbitrary: cidx)
  case Nil
  then show ?case by simp
next
  case (Cons c cs)
  from Cons.prems(1) obtain tbl where p: "py_index cidx st = Inr tbl"
    by (auto split: sum.splits)
  define new where "new = (if c \<notin> dom tbl then tbl(c \<mapsto> []) else tbl)
       (c \<mapsto> (case (if c \<notin> dom tbl then tbl(c \<mapsto> []) else tbl) c of None \<Rightarrow> [] | Some l \<Rightarrow> l) @ [idx])"
  have r: "index_centers (cidx[py_pos (length cidx) st := new]) st idx cs = Inr cidx'"
    using Cons.prems(1) p by (simp add: Let_def new_def)
  have bt: "bounded_tbl idx tbl" using py_index_mem [OF p] Cons.prems(2) by blast
  have bn: "bounded_tbl idx new"
    unfolding bounded_tbl_def
  proof (intro allI impI ballI)
    fix c' l i assume a: "new c' = Some l" "i \<in> set l"
    show "i \<le> idx"
    proof (cases "c' = c")
      case True
      with a(1) have "l = (case tbl c of None \<Rightarrow> [] | Some l \<Rightarrow> l) @ [idx]"
        by (auto simp: new_def dom_def split: if_splits option.splits)
      with a(2) bt show ?thesis by (auto simp: bounded_tbl_def split: option.splits)
    next
      case False
      with a(1) have "tbl c' = Some l" by (auto simp: new_def split: if_splits)
      with a(2) bt show ?thesis by (auto simp: bounded_tbl_def)
    qed
  qed
  have "\<forall>t \<in> set (cidx[py_pos (length cidx) st := new]). bounded_tbl idx t"
    using bn Cons.prems(2) set_update_subset_insert [of cidx "py_pos (length cidx) st" new] by blast
  from Cons.IH [OF r this] show ?case .
qed

lemma addHmmIndex_center:
  assumes "addHmmIndex hm cs st = Inr (hm1, idx)"
  shows "length (center_idx hm1) = max (length (center_idx hm)) (nat (st + 1))"
    and "indexed hm \<Longrightarrow> \<forall>tbl \<in> set (center_idx hm1). bounded_tbl (length (models hm)) tbl"
proof -
  from assms obtain cidx' where
    i: "index_centers (grow (center_idx hm) st) st (length (models hm)) cs = Inr cidx'"
    and c: "center_idx hm1 = cidx'"
    by (auto simp: addHmmIndex_def Let_def split: sum.splits)
  show "length (center_idx hm1) = max (length (center_idx hm)) (nat (st + 1))"
    using index_centers_length [OF i] c by (simp add: grow_length)
  assume x: "indexed hm"
  have "\<forall>tbl \<in> set (grow (center_idx hm) st). bounded_tbl (length (models hm)) tbl"
  proof
    fix tbl assume "tbl \<in> set (grow (center_idx hm) st)"
    then consider "tbl = Map.empty" | "tbl \<in> set (center_idx hm)" using grow_set by blast
    then show "bounded_tbl (length (models hm)) tbl"
    proof cases
      case 1
      then show ?thesis by (simp add: bounded_tbl_def)
    next
      case 2
      with x show ?thesis unfolding indexed_def bounded_tbl_def by (meson less_imp_le_nat)
    qed
  qed
  from index_centers_bounded [OF i this] c
  show "\<forall>tbl \<in> set (center_idx hm1). bounded_tbl (length (models hm)) tbl" by simp
qed


lemma addModel_slots:
  assumes "addModel hm name ctx = Inr hm'"
  shows "length (center_idx hm') = max (length (center_idx hm)) (nat (state_of name + 1))"
proof -
  from addModel_Inr_gen [OF assms] obtain cen ds c1 n hm1 k entry where
    m: "name_re_match name = Some (cen, ds)" "py_int ds = Inr n" and
    h: "addHmmIndex hm (py_split c1) (n - 1) = Inr (hm1, length (models hm))" and
    e: "hm' = hm1\<lparr>models := models hm @ [[(k, entry)]]\<rparr>"
    by blast
  have "state_of name = n - 1" using m by (simp add: state_of_def)
  with addHmmIndex_center(1) [OF h] e show ?thesis by simp
qed


lemma parseLogFile_slots_gen:
  "parseLogFile hm ls = Inr hm' \<Longrightarrow>
   length (center_idx hm') = foldl (\<lambda>k l. max k (nat (state_of (fst l) + 1))) (length (center_idx hm)) ls"
proof (induction ls arbitrary: hm)
  case Nil
  then show ?case by simp
next
  case (Cons l ls)
  from Cons.prems(1) obtain hm1 where a: "addModel hm (fst l) (map snd (snd l)) = Inr hm1"
    and p: "parseLogFile hm1 ls = Inr hm'"
    by (auto split: sum.splits)
  from Cons.IH [OF p] addModel_slots [OF a] show ?case by simp
qed

lemma configured_fields:
  "center_idx (configured syms ci ec) = []" "models (configured syms ci ec) = []"
  "model_syms (configured syms ci ec) = Some syms" "ci_phones (configured syms ci ec) = set ci"
  "empty_context (configured syms ci ec) = Some {ec}"
  by (simp_all add: configured_def setEmptyContext_def setCiPhones_def
      setModelSymbols_def HmmStateModels_def)


lemma built_slots:
  "parseLogFile (configured syms ci ec) ls = Inr hm \<Longrightarrow> length (center_idx hm) = slots ls"
  using parseLogFile_slots_gen [of "configured syms ci ec" ls hm]
  by (simp add: slots_def configured_fields)







text \<open>
  Claim C10. For a state that is at least the number of state slots, \<open>find\<close> raises
  \<open>IndexError\<close>, whatever the other arguments are. A descriptor with such a state
  therefore makes the loop body raise \<open>IndexError\<close>, and the main loop stops there, with
  nothing written for the descriptor and the remaining lines unread. For a model built
  from a log the number of slots is the largest 0-based state of the log plus one.
\<close>

theorem find_no_bounds_check:
  assumes "int (length (center_idx hm)) \<le> st"
  shows "HmmStateModels_find hm left center right st = Inl IndexError
     \<and> (\<forall>a. AllophoneState ec (py_strip raw) = Inr a \<and> a_state a = st \<and>
              py_strip raw \<noteq> [] \<and> hd (py_strip raw) \<noteq> CHR ''#'' \<longrightarrow>
              process_line hm ci ec out raw = Inl IndexError
            \<and> main_loop hm ci ec out (raw # raws) = (out, Some IndexError))
     \<and> (\<forall>syms ci' ec' ls. parseLogFile (configured syms ci' ec') ls = Inr hm \<longrightarrow>
              length (center_idx hm) = slots ls)"
proof -
  have f: "HmmStateModels_find hm l c r st = Inl IndexError" for l c r
    using assms by (simp add: HmmStateModels_find_def py_index_def)
  have "process_line hm ci ec out raw = Inl IndexError"
    if "AllophoneState ec (py_strip raw) = Inr a" "a_state a = st"
      "py_strip raw \<noteq> []" "hd (py_strip raw) \<noteq> CHR ''#''" for a
    using that f by (simp add: process_line_def lookup_def Let_def)
  then show ?thesis using f built_slots by auto
qed

lemma py_int_minus1: "py_int ''-1'' = Inr (- 1)"
  by (simp add: py_int_def py_strip_def is_space_def parse_digits_def is_digit_def
      digits_val_def digit_val_def)

lemma check_groups_std: "check_groups [(''-1'', x), (''0'', y), (''1'', z)] = Inr ()"
  by (simp add: check_groups_def py_int_minus1 py_int_digit0 py_int_digit1)

lemma built_a: "parseLogFile cfg_a log_a = Inr hm_a"
  by (simp add: log_a_def check_groups_std addModel_a)







theorem find_no_bounds_check_witness:
  "int (length (center_idx hm_a)) \<le> 5
 \<and> HmmStateModels_find hm_a ''si'' ''a'' ''si'' 5 = Inl IndexError
 \<and> AllophoneState ''si'' (py_strip (''a{si+si}.5'' @ [CHR 0x0A])) = Inr a5
 \<and> process_line hm_a [''si''] ''si'' \<lparr>stdout = [], stderr = []\<rparr> (''a{si+si}.5'' @ [CHR 0x0A])
      = Inl IndexError
 \<and> main_loop hm_a [''si''] ''si'' \<lparr>stdout = [], stderr = []\<rparr>
      [''a{si+si}.5'' @ [CHR 0x0A], ''a{si+si}.0'' @ [CHR 0x0A]]
      = (\<lparr>stdout = [], stderr = []\<rparr>, Some IndexError)
 \<and> parseLogFile cfg_a log_a = Inr hm_a
 \<and> length (center_idx hm_a) = slots log_a"
proof -
  have l: "int (length (center_idx hm_a)) \<le> 5" by (simp add: hm_a_def)
  have s: "py_strip (''a{si+si}.5'' @ [CHR 0x0A]) = ''a{si+si}.5''" by code_simp
  have p: "AllophoneState ''si'' ''a{si+si}.5'' = Inr a5" by code_simp
  note t = find_no_bounds_check [OF l, of "''si''" "''a''" "''si''" "''si''"
      "''a{si+si}.5'' @ [CHR 0x0A]" "[''si'']" "\<lparr>stdout = [], stderr = []\<rparr>"
      "[''a{si+si}.0'' @ [CHR 0x0A]]"]
  from t have f: "HmmStateModels_find hm_a ''si'' ''a'' ''si'' 5 = Inl IndexError" by blast
  from t s p have q: "process_line hm_a [''si''] ''si'' \<lparr>stdout = [], stderr = []\<rparr>
        (''a{si+si}.5'' @ [CHR 0x0A]) = Inl IndexError
      \<and> main_loop hm_a [''si''] ''si'' \<lparr>stdout = [], stderr = []\<rparr>
        [''a{si+si}.5'' @ [CHR 0x0A], ''a{si+si}.0'' @ [CHR 0x0A]]
        = (\<lparr>stdout = [], stderr = []\<rparr>, Some IndexError)"
    by (simp add: a5_def)
  from t built_a have n: "length (center_idx hm_a) = slots log_a"
    unfolding cfg_a_def by blast
  from l f s p q built_a n show ?thesis by simp
qed

section \<open>Properties of the main loop\<close>

text \<open>
  Claim C5. Let \<open>line\<close> be a stripped input line that is neither empty nor a comment
  and that parses to the allophone state \<open>a\<close>, let \<open>l\<close>, \<open>c\<close>, \<open>r\<close> be the query of the
  first lookup, and let that lookup return \<open>m\<close>. If \<open>m\<close> is not negative, the body
  writes \<open>line\<close>, a blank and \<open>m\<close> to standard output and nothing else. If \<open>m\<close> is
  negative and \<open>a\<close> has no boundary flag, it writes the warning and then the error to
  standard error and nothing to standard output. If \<open>m\<close> is negative and \<open>a\<close> has a
  flag, the outcome is that of the one further lookup of \<open>l\<close>, the unmarked center phone
  and \<open>r\<close>: its index \<open>m2\<close> is written after the line, behind the warning on standard
  error, or, if \<open>m2\<close> is negative too, the warning and the error are written and no line;
  an exception of that lookup ends the run.
\<close>

theorem lookup_policy:
  assumes "line = py_strip raw" and "line \<noteq> []" and "hd line \<noteq> CHR ''#''"
    and "AllophoneState ec line = Inr a"
    and "l = (if a_center a \<in> set ci then [] else a_context a ! 0)"
    and "c = (if a_center a \<in> set ci then a_center a else phoneSymbol a)"
    and "r = (if a_center a \<in> set ci then [] else a_context a ! 1)"
    and "HmmStateModels_find hm l c r (a_state a) = Inr m"
  shows "(0 \<le> m \<longrightarrow>
            process_line hm ci ec out raw =
              Inr (out\<lparr>stdout := stdout out @ line @ '' '' @ show_int m @ [CHR 0x0A]\<rparr>))
     \<and> (m < 0 \<and> \<not> (a_initial a \<or> a_final a) \<longrightarrow>
            process_line hm ci ec out raw =
              Inr (out\<lparr>stderr := stderr out @ ''[WARNING] not found: '' @ line @ [CHR 0x0A]
                                   @ ''[ERROR] cannot map '' @ line @ [CHR 0x0A]\<rparr>))
     \<and> (m < 0 \<and> (a_initial a \<or> a_final a) \<longrightarrow>
          (\<forall>m2. HmmStateModels_find hm l (a_center a) r (a_state a) = Inr m2 \<longrightarrow>
             (0 \<le> m2 \<longrightarrow>
                process_line hm ci ec out raw =
                  Inr (out\<lparr>stdout := stdout out @ line @ '' '' @ show_int m2 @ [CHR 0x0A],
                          stderr := stderr out @ ''[WARNING] not found: '' @ line @ [CHR 0x0A]\<rparr>))
           \<and> (m2 < 0 \<longrightarrow>
                process_line hm ci ec out raw =
                  Inr (out\<lparr>stderr := stderr out @ ''[WARNING] not found: '' @ line @ [CHR 0x0A]
                                       @ ''[ERROR] cannot map '' @ line @ [CHR 0x0A]\<rparr>)))
        \<and> (\<forall>err. HmmStateModels_find hm l (a_center a) r (a_state a) = Inl err \<longrightarrow>
             process_line hm ci ec out raw = Inl err))"
proof -
  have q: "fst (query ci a) = l" "fst (snd (query ci a)) = c" "snd (snd (query ci a)) = r"
    using assms(5-7) by (simp_all add: query_def)
  have p: "process_line hm ci ec out raw = lookup hm ci line a out"
    using assms(1-4) by (simp add: process_line_def Let_def)
  show ?thesis
    unfolding p lookup_def q Let_def using assms(8)
    by (auto simp: report_def warn_def)
qed


lemma descriptors_parsed:
  "py_strip (''a{si+si}.0'' @ [CHR 0x0A]) = ''a{si+si}.0''"
  "py_strip (''a{si+si}@i.0'' @ [CHR 0x0A]) = ''a{si+si}@i.0''"
  "py_strip (''a{b+si}@i.0'' @ [CHR 0x0A]) = ''a{b+si}@i.0''"
  "py_strip (''a{b+si}.0'' @ [CHR 0x0A]) = ''a{b+si}.0''"
  "AllophoneState ''si'' ''a{si+si}.0'' = Inr a_plain"
  "AllophoneState ''si'' ''a{si+si}@i.0'' = Inr a_init"
  "AllophoneState ''si'' ''a{b+si}@i.0'' = Inr a_miss_init"
  "AllophoneState ''si'' ''a{b+si}.0'' = Inr a_miss"
  by code_simp+

lemma find_hm_a:
  "HmmStateModels_find hm_a ''si'' ''a'' ''si'' 0 = Inr 0"
  "HmmStateModels_find hm_a ''si'' ''a@i'' ''si'' 0 = Inr (- 1)"
  "HmmStateModels_find hm_a ''b'' ''a@i'' ''si'' 0 = Inr (- 1)"
  "HmmStateModels_find hm_a ''b'' ''a'' ''si'' 0 = Inr (- 1)"
  by (simp_all add: HmmStateModels_find_def py_index_def hm_a_def)

theorem lookup_policy_witness:
  "process_line hm_a [''si''] ''si'' no_output (''a{si+si}.0'' @ [CHR 0x0A])
     = Inr \<lparr>stdout = ''a{si+si}.0 0'' @ [CHR 0x0A], stderr = []\<rparr>
 \<and> process_line hm_a [''si''] ''si'' no_output (''a{si+si}@i.0'' @ [CHR 0x0A])
     = Inr \<lparr>stdout = ''a{si+si}@i.0 0'' @ [CHR 0x0A],
            stderr = ''[WARNING] not found: a{si+si}@i.0'' @ [CHR 0x0A]\<rparr>
 \<and> process_line hm_a [''si''] ''si'' no_output (''a{b+si}@i.0'' @ [CHR 0x0A])
     = Inr \<lparr>stdout = [],
            stderr = ''[WARNING] not found: a{b+si}@i.0'' @ [CHR 0x0A]
                     @ ''[ERROR] cannot map a{b+si}@i.0'' @ [CHR 0x0A]\<rparr>
 \<and> process_line hm_a [''si''] ''si'' no_output (''a{b+si}.0'' @ [CHR 0x0A])
     = Inr \<lparr>stdout = [],
            stderr = ''[WARNING] not found: a{b+si}.0'' @ [CHR 0x0A]
                     @ ''[ERROR] cannot map a{b+si}.0'' @ [CHR 0x0A]\<rparr>"
proof -
  have z: "show_int 0 = ''0''" by code_simp
  have ne: "''a{si+si}.0'' \<noteq> []" "hd ''a{si+si}.0'' \<noteq> CHR ''#''"
    "''a{si+si}@i.0'' \<noteq> []" "hd ''a{si+si}@i.0'' \<noteq> CHR ''#''"
    "''a{b+si}@i.0'' \<noteq> []" "hd ''a{b+si}@i.0'' \<noteq> CHR ''#''"
    "''a{b+si}.0'' \<noteq> []" "hd ''a{b+si}.0'' \<noteq> CHR ''#''"
    by simp_all
  have q1: "''si'' = (if a_center a_plain \<in> set [''si''] then [] else a_context a_plain ! 0)"
    "''a'' = (if a_center a_plain \<in> set [''si''] then a_center a_plain else phoneSymbol a_plain)"
    "''si'' = (if a_center a_plain \<in> set [''si''] then [] else a_context a_plain ! 1)"
    "HmmStateModels_find hm_a ''si'' ''a'' ''si'' (a_state a_plain) = Inr 0"
    by (simp_all add: a_plain_def phoneSymbol_def find_hm_a)
  have q2: "''si'' = (if a_center a_init \<in> set [''si''] then [] else a_context a_init ! 0)"
    "''a@i'' = (if a_center a_init \<in> set [''si''] then a_center a_init else phoneSymbol a_init)"
    "''si'' = (if a_center a_init \<in> set [''si''] then [] else a_context a_init ! 1)"
    "HmmStateModels_find hm_a ''si'' ''a@i'' ''si'' (a_state a_init) = Inr (- 1)"
    by (simp_all add: a_init_def phoneSymbol_def find_hm_a)
  have q3: "''b'' = (if a_center a_miss_init \<in> set [''si''] then [] else a_context a_miss_init ! 0)"
    "''a@i'' = (if a_center a_miss_init \<in> set [''si''] then a_center a_miss_init
                else phoneSymbol a_miss_init)"
    "''si'' = (if a_center a_miss_init \<in> set [''si''] then [] else a_context a_miss_init ! 1)"
    "HmmStateModels_find hm_a ''b'' ''a@i'' ''si'' (a_state a_miss_init) = Inr (- 1)"
    by (simp_all add: a_miss_init_def phoneSymbol_def find_hm_a)
  have q4: "''b'' = (if a_center a_miss \<in> set [''si''] then [] else a_context a_miss ! 0)"
    "''a'' = (if a_center a_miss \<in> set [''si''] then a_center a_miss else phoneSymbol a_miss)"
    "''si'' = (if a_center a_miss \<in> set [''si''] then [] else a_context a_miss ! 1)"
    "HmmStateModels_find hm_a ''b'' ''a'' ''si'' (a_state a_miss) = Inr (- 1)"
    by (simp_all add: a_miss_def phoneSymbol_def find_hm_a)
  have r2: "HmmStateModels_find hm_a ''si'' (a_center a_init) ''si'' (a_state a_init) = Inr 0"
    by (simp add: a_init_def find_hm_a)
  have r3: "HmmStateModels_find hm_a ''b'' (a_center a_miss_init) ''si'' (a_state a_miss_init) = Inr (- 1)"
    by (simp add: a_miss_init_def find_hm_a)
  note t1 = lookup_policy [OF descriptors_parsed(1) [symmetric] ne(1,2) descriptors_parsed(5) q1,
      of no_output]
  note t2 = lookup_policy [OF descriptors_parsed(2) [symmetric] ne(3,4) descriptors_parsed(6) q2,
      of no_output]
  note t3 = lookup_policy [OF descriptors_parsed(3) [symmetric] ne(5,6) descriptors_parsed(7) q3,
      of no_output]
  note t4 = lookup_policy [OF descriptors_parsed(4) [symmetric] ne(7,8) descriptors_parsed(8) q4,
      of no_output]
  have 1: "process_line hm_a [''si''] ''si'' no_output (''a{si+si}.0'' @ [CHR 0x0A])
     = Inr \<lparr>stdout = ''a{si+si}.0 0'' @ [CHR 0x0A], stderr = []\<rparr>"
    using t1 by (simp add: no_output_def z)
  have f2: "a_initial a_init \<or> a_final a_init" "a_initial a_miss_init \<or> a_final a_miss_init"
    "\<not> (a_initial a_miss \<or> a_final a_miss)"
    by (simp_all add: a_init_def a_miss_init_def a_miss_def)
  have 2: "process_line hm_a [''si''] ''si'' no_output (''a{si+si}@i.0'' @ [CHR 0x0A])
     = Inr \<lparr>stdout = ''a{si+si}@i.0 0'' @ [CHR 0x0A],
            stderr = ''[WARNING] not found: a{si+si}@i.0'' @ [CHR 0x0A]\<rparr>"
    using t2 f2(1) r2 by (simp add: no_output_def z)
  have 3: "process_line hm_a [''si''] ''si'' no_output (''a{b+si}@i.0'' @ [CHR 0x0A])
     = Inr \<lparr>stdout = [],
            stderr = ''[WARNING] not found: a{b+si}@i.0'' @ [CHR 0x0A]
                     @ ''[ERROR] cannot map a{b+si}@i.0'' @ [CHR 0x0A]\<rparr>"
    using t3 f2(2) r3 by (simp add: no_output_def)
  have 4: "process_line hm_a [''si''] ''si'' no_output (''a{b+si}.0'' @ [CHR 0x0A])
     = Inr \<lparr>stdout = [],
            stderr = ''[WARNING] not found: a{b+si}.0'' @ [CHR 0x0A]
                     @ ''[ERROR] cannot map a{b+si}.0'' @ [CHR 0x0A]\<rparr>"
    using t4 f2(3) by (simp add: no_output_def)
  from 1 2 3 4 show ?thesis by blast
qed

end
